theory Spec2Isabelle
  imports Complex_Main "HOL-Library.Multiset"
begin

section \<open>Python values: exceptions and numpy arrays\<close>

text \<open>
  Every \<^verbatim>\<open>raise\<close> and failing \<^verbatim>\<open>assert\<close> of the source is a value \<open>Inl e\<close> of the
  result type \<open>error + 'a\<close>. An \<open>AssertionError\<close> carries the message of its
  \<^verbatim>\<open>assert\<close>; \<open>ExternalError\<close> stands for whatever a collaborator module raises
  (an unreadable file, a malformed prior array).
\<close>

datatype error =
    AssertionError string
  | IndexError
  | ValueError
  | StopIteration
  | RuntimeError
  | ExternalError string

definition and_then :: "error + 'a \<Rightarrow> ('a \<Rightarrow> error + 'b) \<Rightarrow> error + 'b" where
  "and_then r f = (case r of Inl e \<Rightarrow> Inl e | Inr x \<Rightarrow> f x)"

definition py_assert :: "bool \<Rightarrow> string \<Rightarrow> error + unit" where
  "py_assert c msg = (if c then Inr () else Inl (AssertionError msg))"

text \<open>
  A numpy array is its shape and its elements in row-major order. The arrays handed
  over by numpy hold \<open>prod_list (shape a)\<close> elements.
\<close>

record 'a ndarray =
  shape :: "nat list"
  data :: "'a list"

definition well_shaped :: "'a ndarray \<Rightarrow> bool" where
  "well_shaped a \<longleftrightarrow> length (data a) = prod_list (shape a)"

definition array1 :: "'a list \<Rightarrow> 'a ndarray" where
  "array1 xs = \<lparr>shape = [length xs], data = xs\<rparr>"

text \<open>\<^verbatim>\<open>a.shape[0]\<close>: a 0-dimensional array has the empty tuple as shape.\<close>

definition shape0 :: "'a ndarray \<Rightarrow> error + nat" where
  "shape0 a = (case shape a of [] \<Rightarrow> Inl IndexError | n # _ \<Rightarrow> Inr n)"

text \<open>\<^verbatim>\<open>np.unique\<close>: the sorted distinct elements of the flattened array.\<close>

definition np_unique :: "int ndarray \<Rightarrow> int ndarray" where
  "np_unique a = array1 (sort (remdups (data a)))"

text \<open>\<^verbatim>\<open>np.max\<close> raises ValueError on an array without elements.\<close>

definition np_max :: "int ndarray \<Rightarrow> error + int" where
  "np_max a = (if data a = [] then Inl ValueError else Inr (Max (set (data a))))"

text \<open>\<^verbatim>\<open>np.arange(n)\<close> is \<open>0, \<dots>, n - 1\<close>, empty when \<open>n \<le> 0\<close>.\<close>

definition np_arange :: "int \<Rightarrow> int ndarray" where
  "np_arange n = array1 [0..n - 1]"

definition np_array_equal :: "'a ndarray \<Rightarrow> 'a ndarray \<Rightarrow> bool" where
  "np_array_equal a b \<longleftrightarrow> shape a = shape b \<and> data a = data b"

type_synonym affine = "real list list"

text \<open>\<^verbatim>\<open>np.eye(n)\<close>\<close>

definition eye :: "nat \<Rightarrow> affine" where
  "eye n = map (\<lambda>i. map (\<lambda>j. if i = j then 1 else 0) [0..<n]) [0..<n]"

section \<open>The generator object\<close>

text \<open>
  The keyword arguments that \<^verbatim>\<open>__init__\<close> stores under their own name without looking
  at them. Their values are of a type \<open>'p\<close> of resolved configuration values
  (\<^verbatim>\<open>utils.load_array_if_path\<close> returns a value that is not a path as it is);
  \<open>batchsize\<close> is a Python integer.
\<close>

record 'p passthrough =
  batchsize :: int
  target_res :: 'p
  padding_margin :: 'p
  flipping :: 'p
  output_shape :: 'p
  output_div_by_n :: 'p
  prior_distributions :: 'p
  prior_means :: 'p
  prior_stds :: 'p
  scaling_bounds :: 'p
  rotation_bounds :: 'p
  shearing_bounds :: 'p
  translation_bounds :: 'p
  nonlin_std :: 'p
  nonlin_shape_factor :: 'p
  simulate_registration_error :: 'p
  data_res :: 'p
  thickness :: 'p
  downsample :: 'p
  blur_range :: 'p
  build_reliability_maps :: 'p
  bias_field_std :: 'p
  bias_shape_factor :: 'p

text \<open>The arguments of \<^verbatim>\<open>__init__\<close>; \<open>None\<close> is Python's \<^verbatim>\<open>None\<close>.\<close>

record 'p args = "'p passthrough" +
  labels_dir :: string
  images_dir :: "string option"
  arg_generation_labels :: "int ndarray option"
  arg_n_neutral_labels :: "int option"
  arg_input_channels :: 'p
  arg_output_channel :: 'p
  arg_generation_classes :: "int ndarray option"

text \<open>The static fields of \<^verbatim>\<open>self\<close>, all assigned in \<^verbatim>\<open>__init__\<close>.\<close>

record 'p config = "'p passthrough" +
  labels_paths :: "string list"
  images_paths :: "string list option"
  labels_shape :: "nat list"
  aff :: affine
  n_dims :: nat
  header :: 'p
  atlas_res :: "real list"
  generation_labels :: "int ndarray"
  n_neutral_labels :: int
  input_channels :: "'p list"
  output_channel :: "'p list"
  n_channels :: nat
  generation_classes :: "int ndarray"

text \<open>
  A Python generator object either can still be resumed or is finished; \<^verbatim>\<open>next\<close> on a
  finished generator raises StopIteration.
\<close>

datatype gen_status = Resumable | Finished

text \<open>
  The whole object: the static fields, the compiled model \<open>'m\<close> (with the state of its
  random operations), the state \<open>'s\<close> of the iterator of model inputs, and the status
  of the generator made by \<^verbatim>\<open>_build_brain_generator\<close>.
\<close>

record ('p, 'm, 's) BrainGenerator = "'p config" +
  labels_to_image_model :: 'm
  model_output_shape :: "nat option list"
  model_inputs_generator :: 's
  brain_generator :: gen_status

text \<open>What \<^verbatim>\<open>utils.get_volume_info\<close> returns.\<close>

record 'p volume_info =
  vi_shape :: "nat list"
  vi_aff :: affine
  vi_n_dims :: nat
  vi_n_channels :: nat
  vi_header :: 'p
  vi_res :: "real list"

text \<open>
  The collaborators of the class, which are not part of this file: the helpers of
  \<^verbatim>\<open>ext.lab2im\<close>, the model builder \<^verbatim>\<open>labels_to_image_model\<close> with the \<^verbatim>\<open>predict\<close> of
  the model it returns, and \<^verbatim>\<open>build_model_inputs\<close> with the \<^verbatim>\<open>next\<close> of the iterator
  it returns. Each is a parameter; each may raise. \<open>'i\<close> is a bundle of model inputs.
  The two builders are handed the static fields of the object, of which the source
  passes a selection as keyword arguments, and the model builder the affine of its
  frame.
\<close>

record ('p, 'm, 's, 'i) collaborators =
  list_images_in_folder :: "string \<Rightarrow> error + string list"
  get_volume_info :: "string \<Rightarrow> affine \<Rightarrow> error + 'p volume_info"
  get_list_labels :: "string \<Rightarrow> error + int ndarray"
  reformat_to_list :: "'p \<Rightarrow> error + 'p list"
  build_labels_to_image_model :: "'p config \<Rightarrow> affine \<Rightarrow> error + 'm"
  model_outputs :: "'m \<Rightarrow> nat option list list"
  build_model_inputs :: "'p config \<Rightarrow> error + 's"
  next_model_inputs :: "'s \<Rightarrow> (error + 'i) \<times> 's"
  predict :: "'m \<Rightarrow> 'i \<Rightarrow> (error + real ndarray \<times> real ndarray) \<times> 'm"
  align_volume_to_ref :: "real ndarray \<Rightarrow> affine \<Rightarrow> affine \<Rightarrow> nat \<Rightarrow> error + real ndarray"

section \<open>Construction\<close>

text \<open>
  \<^verbatim>\<open>__init__\<close>, paragraph by paragraph. The listing of the label maps comes first,
  then the listing of the images and the comparison of the two counts.
\<close>

definition prepare_data_files ::
  "('p, 'm, 's, 'i) collaborators \<Rightarrow> 'p args \<Rightarrow> error + string list \<times> string list option" where
  "prepare_data_files env a =
     and_then (list_images_in_folder env (labels_dir a)) (\<lambda>lp.
       case images_dir a of
         None \<Rightarrow> Inr (lp, None)
       | Some d \<Rightarrow>
           and_then (list_images_in_folder env d) (\<lambda>ip.
           and_then (py_assert (length lp = length ip)
                       ''Different number of images and segmentations'') (\<lambda>_.
           Inr (lp, Some ip))))"

text \<open>\<^verbatim>\<open>self.labels_paths[0]\<close>\<close>

definition first_path :: "string list \<Rightarrow> error + string" where
  "first_path lp = (case lp of [] \<Rightarrow> Inl IndexError | p # _ \<Rightarrow> Inr p)"

definition init_generation_labels ::
  "('p, 'm, 's, 'i) collaborators \<Rightarrow> 'p args \<Rightarrow> error + int ndarray" where
  "init_generation_labels env a =
     (case arg_generation_labels a of
        Some gl \<Rightarrow> Inr gl
      | None \<Rightarrow> get_list_labels env (labels_dir a))"

definition init_n_neutral_labels :: "'p args \<Rightarrow> int ndarray \<Rightarrow> error + int" where
  "init_n_neutral_labels a gl =
     (case arg_n_neutral_labels a of
        Some n \<Rightarrow> Inr n
      | None \<Rightarrow> and_then (shape0 gl) (\<lambda>n. Inr (int n)))"

definition init_generation_classes :: "'p args \<Rightarrow> int ndarray \<Rightarrow> error + int ndarray" where
  "init_generation_classes a gl =
     (case arg_generation_classes a of
        Some gc \<Rightarrow>
          and_then (py_assert (shape gc = shape gl)
            ''if provided, generation labels should have the same shape as generation_labels'') (\<lambda>_.
          let unique_classes = np_unique gc in
          and_then (np_max unique_classes) (\<lambda>m.
          and_then (py_assert (np_array_equal unique_classes (np_arange (m + 1)))
            ''generation_classes should a linear range between 0 and its maximum value.'') (\<lambda>_.
          Inr gc)))
      | None \<Rightarrow> and_then (shape0 gl) (\<lambda>n. Inr (np_arange (int n))))"

text \<open>
  \<^verbatim>\<open>_build_labels_to_image_model\<close>: the model is built in the frame of the identity
  affine; its output shape is the shape of its first output without the batch axis.
\<close>

definition build_model ::
  "('p, 'm, 's, 'i) collaborators \<Rightarrow> 'p config \<Rightarrow> error + 'm \<times> nat option list" where
  "build_model env c =
     and_then (build_labels_to_image_model env c (eye 4)) (\<lambda>m.
       case model_outputs env m of
         [] \<Rightarrow> Inl IndexError
       | out # _ \<Rightarrow> Inr (m, drop 1 out))"

definition make_config ::
  "'p args \<Rightarrow> string list \<Rightarrow> string list option \<Rightarrow> 'p volume_info \<Rightarrow> int ndarray \<Rightarrow> int \<Rightarrow>
   'p list \<Rightarrow> 'p list \<Rightarrow> int ndarray \<Rightarrow> 'p config" where
  "make_config a lp ip vi gl nn ic oc gc =
     \<lparr>batchsize = batchsize a,
      target_res = target_res a,
      padding_margin = padding_margin a,
      flipping = flipping a,
      output_shape = output_shape a,
      output_div_by_n = output_div_by_n a,
      prior_distributions = prior_distributions a,
      prior_means = prior_means a,
      prior_stds = prior_stds a,
      scaling_bounds = scaling_bounds a,
      rotation_bounds = rotation_bounds a,
      shearing_bounds = shearing_bounds a,
      translation_bounds = translation_bounds a,
      nonlin_std = nonlin_std a,
      nonlin_shape_factor = nonlin_shape_factor a,
      simulate_registration_error = simulate_registration_error a,
      data_res = data_res a,
      thickness = thickness a,
      downsample = downsample a,
      blur_range = blur_range a,
      build_reliability_maps = build_reliability_maps a,
      bias_field_std = bias_field_std a,
      bias_shape_factor = bias_shape_factor a,
      labels_paths = lp,
      images_paths = ip,
      labels_shape = vi_shape vi,
      aff = vi_aff vi,
      n_dims = vi_n_dims vi,
      header = vi_header vi,
      atlas_res = vi_res vi,
      generation_labels = gl,
      n_neutral_labels = nn,
      input_channels = ic,
      output_channel = oc,
      n_channels = length ic,
      generation_classes = gc\<rparr>"

text \<open>
  The three builders at the end of \<^verbatim>\<open>__init__\<close>. Calling the generator function
  \<^verbatim>\<open>_build_brain_generator\<close> runs none of its body: the generator starts resumable.
\<close>

definition build_generators ::
  "('p, 'm, 's, 'i) collaborators \<Rightarrow> 'p config \<Rightarrow> error + ('p, 'm, 's) BrainGenerator" where
  "build_generators env c =
     and_then (build_model env c) (\<lambda>(m, out_shape).
     and_then (build_model_inputs env c) (\<lambda>s.
     Inr (config.extend c
            \<lparr>labels_to_image_model = m,
             model_output_shape = out_shape,
             model_inputs_generator = s,
             brain_generator = Resumable\<rparr>)))"

definition init_from_files ::
  "('p, 'm, 's, 'i) collaborators \<Rightarrow> 'p args \<Rightarrow> string list \<Rightarrow> string list option \<Rightarrow>
   error + ('p, 'm, 's) BrainGenerator" where
  "init_from_files env a lp ip =
     and_then (first_path lp) (\<lambda>p0.
     and_then (get_volume_info env p0 (eye 4)) (\<lambda>vi.
     and_then (init_generation_labels env a) (\<lambda>gl.
     and_then (init_n_neutral_labels a gl) (\<lambda>nn.
     and_then (reformat_to_list env (arg_input_channels a)) (\<lambda>ic.
     and_then (reformat_to_list env (arg_output_channel a)) (\<lambda>oc.
     and_then (init_generation_classes a gl) (\<lambda>gc.
     build_generators env (make_config a lp ip vi gl nn ic oc gc))))))))"

definition init ::
  "('p, 'm, 's, 'i) collaborators \<Rightarrow> 'p args \<Rightarrow> error + ('p, 'm, 's) BrainGenerator" where
  "init env a =
     and_then (prepare_data_files env a) (\<lambda>(lp, ip). init_from_files env a lp ip)"

section \<open>Generating a batch\<close>

text \<open>\<^verbatim>\<open>a[i]\<close> for an index \<open>i \<ge> 0\<close>: the \<open>i\<close>-th slice along the first axis.\<close>

definition getitem :: "'a ndarray \<Rightarrow> nat \<Rightarrow> error + 'a ndarray" where
  "getitem a i =
     (case shape a of
        [] \<Rightarrow> Inl IndexError
      | n # ns \<Rightarrow>
          if i < n
          then Inr \<lparr>shape = ns, data = take (prod_list ns) (drop (i * prod_list ns) (data a))\<rparr>
          else Inl IndexError)"

text \<open>
  \<^verbatim>\<open>np.stack(arrays, axis=0)\<close> raises ValueError on an empty list and on arrays of
  different shapes.
\<close>

definition np_stack :: "'a ndarray list \<Rightarrow> error + 'a ndarray" where
  "np_stack arrays =
     (case arrays of
        [] \<Rightarrow> Inl ValueError
      | a # _ \<Rightarrow>
          if list_all (\<lambda>b. shape b = shape a) arrays
          then Inr \<lparr>shape = length arrays # shape a, data = concat (map data arrays)\<rparr>
          else Inl ValueError)"

text \<open>
  An exception that leaves the body of a generator finishes the generator, and a
  StopIteration that leaves it reaches the caller as a RuntimeError (PEP 479).
\<close>

definition raised_in_generator :: "error \<Rightarrow> error" where
  "raised_in_generator e = (if e = StopIteration then RuntimeError else e)"

text \<open>
  \<^verbatim>\<open>next(self.brain_generator)\<close>: the body of \<^verbatim>\<open>_build_brain_generator\<close> from one
  \<^verbatim>\<open>yield\<close> to the next, which is one pass of its \<^verbatim>\<open>while True\<close> loop.
\<close>

definition next_brain_generator ::
  "('p, 'm, 's, 'i) collaborators \<Rightarrow> ('p, 'm, 's) BrainGenerator \<Rightarrow>
   (error + real ndarray \<times> real ndarray) \<times> ('p, 'm, 's) BrainGenerator" where
  "next_brain_generator env g =
     (case brain_generator g of
        Finished \<Rightarrow> (Inl StopIteration, g)
      | Resumable \<Rightarrow>
          (case next_model_inputs env (model_inputs_generator g) of
             (Inl e, s') \<Rightarrow>
               (Inl (raised_in_generator e),
                g\<lparr>model_inputs_generator := s', brain_generator := Finished\<rparr>)
           | (Inr model_inputs, s') \<Rightarrow>
               (case predict env (labels_to_image_model g) model_inputs of
                  (Inl e, m') \<Rightarrow>
                    (Inl (raised_in_generator e),
                     g\<lparr>labels_to_image_model := m', model_inputs_generator := s',
                       brain_generator := Finished\<rparr>)
                | (Inr (image0, target0), m') \<Rightarrow>
                    (Inr (image0, target0),
                     g\<lparr>labels_to_image_model := m', model_inputs_generator := s'\<rparr>))))"

text \<open>The \<^verbatim>\<open>for i in range(self.batchsize)\<close> loop of \<^verbatim>\<open>generate_brain\<close>.\<close>

fun native_space ::
  "('p, 'm, 's, 'i) collaborators \<Rightarrow> ('p, 'm, 's) BrainGenerator \<Rightarrow> real ndarray \<Rightarrow> real ndarray \<Rightarrow>
   nat list \<Rightarrow> real ndarray list \<Rightarrow> real ndarray list \<Rightarrow>
   error + real ndarray list \<times> real ndarray list" where
  "native_space env g image0 target0 [] list_images list_targets = Inr (list_images, list_targets)"
| "native_space env g image0 target0 (i # is) list_images list_targets =
     and_then (getitem image0 i) (\<lambda>image_i.
     and_then (align_volume_to_ref env image_i (eye 4) (aff g) (n_dims g)) (\<lambda>aligned_image.
     and_then (getitem target0 i) (\<lambda>target_i.
     and_then (align_volume_to_ref env target_i (eye 4) (aff g) (n_dims g)) (\<lambda>aligned_target.
     native_space env g image0 target0 is
       (list_images @ [aligned_image]) (list_targets @ [aligned_target])))))"

text \<open>
  The second half of \<^verbatim>\<open>generate_brain\<close> (\<^verbatim>\<open># put back images in native space\<close>):
  the loop, then the two \<^verbatim>\<open>np.stack\<close>.
\<close>

definition put_back_in_native_space ::
  "('p, 'm, 's, 'i) collaborators \<Rightarrow> ('p, 'm, 's) BrainGenerator \<Rightarrow> real ndarray \<Rightarrow> real ndarray \<Rightarrow>
   error + real ndarray \<times> real ndarray" where
  "put_back_in_native_space env g image0 target0 =
     and_then (native_space env g image0 target0 [0..<nat (batchsize g)] [] [])
       (\<lambda>(list_images, list_targets).
     and_then (np_stack list_images) (\<lambda>image'.
     and_then (np_stack list_targets) (\<lambda>target'.
     Inr (image', target'))))"

definition generate_brain ::
  "('p, 'm, 's, 'i) collaborators \<Rightarrow> ('p, 'm, 's) BrainGenerator \<Rightarrow>
   (error + real ndarray \<times> real ndarray) \<times> ('p, 'm, 's) BrainGenerator" where
  "generate_brain env g =
     (case next_brain_generator env g of
        (Inl e, g') \<Rightarrow> (Inl e, g')
      | (Inr (image0, target0), g') \<Rightarrow> (put_back_in_native_space env g' image0 target0, g'))"

text \<open>A caller that asks for \<open>n\<close> batches in a row and stops at the first failure.\<close>

fun generate_brains ::
  "('p, 'm, 's, 'i) collaborators \<Rightarrow> ('p, 'm, 's) BrainGenerator \<Rightarrow> nat \<Rightarrow>
   (error + (real ndarray \<times> real ndarray) list) \<times> ('p, 'm, 's) BrainGenerator" where
  "generate_brains env g 0 = (Inr [], g)"
| "generate_brains env g (Suc n) =
     (case generate_brain env g of
        (Inl e, g') \<Rightarrow> (Inl e, g')
      | (Inr batch, g') \<Rightarrow>
          (case generate_brains env g' n of
             (Inl e, g'') \<Rightarrow> (Inl e, g'')
           | (Inr batches, g'') \<Rightarrow> (Inr (batch # batches), g'')))"

section \<open>Collaborators that are not in this file\<close>

subsection \<open>Arrays by index\<close>

text \<open>
  The position of a multi-index in row-major order, and the multi-index of a position,
  for a given shape.
\<close>

fun ravel :: "nat list \<Rightarrow> nat list \<Rightarrow> nat" where
  "ravel (n # ns) (i # is) = i * prod_list ns + ravel ns is"
| "ravel _ _ = 0"

fun unravel :: "nat list \<Rightarrow> nat \<Rightarrow> nat list" where
  "unravel [] k = []"
| "unravel (n # ns) k = (k div prod_list ns) # unravel ns (k mod prod_list ns)"

definition mirror :: "nat list \<Rightarrow> nat \<Rightarrow> nat list \<Rightarrow> nat list" where
  "mirror sh axis idx = idx[axis := sh ! axis - 1 - idx ! axis]"

text \<open>The position whose multi-index is the mirror image, along one axis, of that of \<open>k\<close>.\<close>

definition mirrored :: "nat list \<Rightarrow> nat \<Rightarrow> nat \<Rightarrow> nat" where
  "mirrored sh axis k = ravel sh (mirror sh axis (unravel sh k))"

text \<open>\<^verbatim>\<open>np.flip(v, axis)\<close>: the same shape, the order along one axis reversed.\<close>

definition np_flip :: "'a ndarray \<Rightarrow> nat \<Rightarrow> error + 'a ndarray" where
  "np_flip v axis =
     (if axis < length (shape v)
      then Inr (v\<lparr>data := map (\<lambda>k. data v ! mirrored (shape v) axis k) [0..<length (data v)]\<rparr>)
      else Inl ValueError)"

fun np_flips :: "'a ndarray \<Rightarrow> nat list \<Rightarrow> error + 'a ndarray" where
  "np_flips v [] = Inr v"
| "np_flips v (axis # axes) = and_then (np_flip v axis) (\<lambda>w. np_flips w axes)"

fun index_of :: "'a list \<Rightarrow> 'a \<Rightarrow> nat" where
  "index_of [] a = 0"
| "index_of (x # xs) a = (if x = a then 0 else Suc (index_of xs a))"

text \<open>
  \<^verbatim>\<open>np.transpose(v, axes)\<close>: axis \<open>k\<close> of the result is axis \<open>axes ! k\<close> of \<open>v\<close>;
  \<open>axes\<close> must be a permutation of the axes of \<open>v\<close>.
\<close>

definition np_transpose :: "'a ndarray \<Rightarrow> nat list \<Rightarrow> error + 'a ndarray" where
  "np_transpose v axes =
     (if sort axes = [0..<length (shape v)]
      then
        let sh = map (\<lambda>a. shape v ! a) axes in
        Inr \<lparr>shape = sh,
             data = map (\<lambda>k. data v !
                      ravel (shape v)
                        (map (\<lambda>old. unravel sh k ! index_of axes old) [0..<length (shape v)]))
                    [0..<length (data v)]\<rparr>
      else Inl ValueError)"

subsection \<open>Re-orientation of a volume\<close>

text \<open>
  The entry of largest absolute value of a row, with its position (the first one
  among equals).
\<close>

fun dominant :: "real list \<Rightarrow> nat \<times> real" where
  "dominant [] = (0, 0)"
| "dominant (x # xs) =
     (if list_all (\<lambda>y. \<bar>y\<bar> \<le> \<bar>x\<bar>) xs then (0, x)
      else case dominant xs of (k, y) \<Rightarrow> (Suc k, y))"

text \<open>
  Modelled from the spec: the orientation implied by a voxel-to-world affine, which
  \<^verbatim>\<open>ext.lab2im.edit_volumes\<close> computes and this file does not contain. For each of
  the \<open>n\<close> world axes: the voxel axis that runs along it, and whether it runs
  backwards.
\<close>

definition orientation :: "affine \<Rightarrow> nat \<Rightarrow> (nat \<times> bool) list" where
  "orientation a n =
     map (\<lambda>row. case dominant (take n row) of (k, x) \<Rightarrow> (k, x < 0)) (take n a)"

text \<open>
  Modelled from the spec: \<^verbatim>\<open>edit_volumes.align_volume_to_ref\<close>, which is missing here.
  It re-expresses a volume given in the orientation of \<open>aff0\<close> in the orientation
  implied by \<open>aff_ref\<close>: the voxel axis of each world axis moves to where the reference
  has it, and is reversed where the two directions differ. Axes beyond the first \<open>n\<close>
  (the channels) stay in place.
\<close>

definition axes_order :: "(nat \<times> bool) list \<Rightarrow> (nat \<times> bool) list \<Rightarrow> nat \<Rightarrow> nat list" where
  "axes_order flo ref rank =
     map (\<lambda>k. case map_of (zip (map fst ref) (map fst flo)) k of
                 Some old \<Rightarrow> old
               | None \<Rightarrow> k)
       [0..<rank]"

definition align_volume_to_ref_spec ::
  "real ndarray \<Rightarrow> affine \<Rightarrow> affine \<Rightarrow> nat \<Rightarrow> error + real ndarray" where
  "align_volume_to_ref_spec volume aff0 aff_ref n =
     (let flo = orientation aff0 n;
          ref = orientation aff_ref n;
          axes = axes_order flo ref (length (shape volume));
          flips = map (\<lambda>(r, f). fst r) (filter (\<lambda>(r, f). snd r \<noteq> snd f) (zip ref flo))
      in and_then (np_transpose volume axes) (\<lambda>v. np_flips v flips))"

text \<open>
  The shape that a volume of shape \<open>sh\<close> in the canonical frame of the identity
  affine has once it is expressed in the orientation of \<open>aff_ref\<close>.
\<close>

definition native_shape :: "affine \<Rightarrow> nat \<Rightarrow> nat list \<Rightarrow> nat list" where
  "native_shape aff_ref n sh =
     map (\<lambda>a. sh ! a) (axes_order (orientation (eye 4) n) (orientation aff_ref n) (length sh))"

subsection \<open>Left-right flipping of a label map\<close>

text \<open>
  Modelled from the spec: the relabelling of the flipping stage of
  \<^verbatim>\<open>labels_to_image_model\<close>, which is missing here. The label list is
  \<open>n\<close> neutral labels, then the labels of one side, then the labels of the other side;
  a label of one side becomes the label at the same position of the other side, and
  any other label stays.
\<close>

definition swap_labels :: "int list \<Rightarrow> nat \<Rightarrow> int \<Rightarrow> int" where
  "swap_labels label_list n l =
     (let sided = drop n label_list;
          m = length sided div 2;
          left = take m sided;
          right = drop m sided
      in case map_of (zip (left @ right) (right @ left)) l of
           Some l' \<Rightarrow> l'
         | None \<Rightarrow> l)"

text \<open>
  Modelled from the spec: the flip itself, of the same missing stage: the label map is
  mirrored along the flip axis and relabelled.
\<close>

definition flip_label_map :: "int list \<Rightarrow> nat \<Rightarrow> nat \<Rightarrow> int ndarray \<Rightarrow> error + int ndarray" where
  "flip_label_map label_list n axis labels =
     and_then (np_flip labels axis) (\<lambda>v.
       Inr (v\<lparr>data := map (swap_labels label_list n) (data v)\<rparr>))"

section \<open>A concrete generator\<close>

text \<open>
  A small instance of everything above, for evaluation: one label map in LIA
  orientation, seven labels (three neutral, two left, two right), and a model that
  emits volumes of shape \<open>1 \<times> 2 \<times> 3\<close> with one channel.
\<close>

definition lia :: affine where
  "lia = [[-1, 0, 0, 0], [0, 0, 1, 0], [0, -1, 0, 0], [0, 0, 0, 1]]"

definition example_env :: "(unit, unit, nat, nat) collaborators" where
  "example_env =
     \<lparr>list_images_in_folder = (\<lambda>d.
        if d = ''labels'' then Inr [''labels/a.nii'']
        else if d = ''images'' then Inr [''images/a.nii'']
        else if d = ''more_images'' then Inr [''more_images/a.nii'', ''more_images/b.nii'']
        else Inl (ExternalError ''no such folder'')),
      get_volume_info = (\<lambda>p aff_ref.
        Inr \<lparr>vi_shape = [4, 5, 6], vi_aff = lia, vi_n_dims = 3, vi_n_channels = 1,
             vi_header = (), vi_res = [1, 1, 1]\<rparr>),
      get_list_labels = (\<lambda>d. Inr (array1 [0, 1])),
      reformat_to_list = (\<lambda>p. Inr [p]),
      build_labels_to_image_model = (\<lambda>c a. Inr ()),
      model_outputs = (\<lambda>m. [[None, Some 1, Some 2, Some 3, Some 1],
                              [None, Some 1, Some 2, Some 3, Some 1]]),
      build_model_inputs = (\<lambda>c. Inr 0),
      next_model_inputs = (\<lambda>s. (Inr s, Suc s)),
      predict = (\<lambda>m i.
        (Inr (\<lparr>shape = [1, 1, 2, 3, 1], data = [real i, 1, 2, 3, 4, 5]\<rparr>,
              \<lparr>shape = [1, 1, 2, 3, 1], data = [real i, 10, 20, 30, 40, 50]\<rparr>), m)),
      align_volume_to_ref = align_volume_to_ref_spec\<rparr>"

definition example_args :: "unit args" where
  "example_args =
     \<lparr>batchsize = 1,
      target_res = (), padding_margin = (), flipping = (), output_shape = (),
      output_div_by_n = (), prior_distributions = (), prior_means = (), prior_stds = (),
      scaling_bounds = (), rotation_bounds = (), shearing_bounds = (),
      translation_bounds = (), nonlin_std = (), nonlin_shape_factor = (),
      simulate_registration_error = (), data_res = (), thickness = (), downsample = (),
      blur_range = (), build_reliability_maps = (), bias_field_std = (),
      bias_shape_factor = (),
      labels_dir = ''labels'',
      images_dir = None,
      arg_generation_labels = Some (array1 [0, 1, 2, 3, 4, 5, 6]),
      arg_n_neutral_labels = Some 3,
      arg_input_channels = (),
      arg_output_channel = (),
      arg_generation_classes = Some (array1 [0, 0, 1, 2, 3, 2, 3])\<rparr>"

text \<open>The object that \<^verbatim>\<open>__init__\<close> returns on these arguments.\<close>

definition example_generator :: "(unit, unit, nat) BrainGenerator" where
  "example_generator =
     config.extend
       (make_config example_args [''labels/a.nii''] None
          \<lparr>vi_shape = [4, 5, 6], vi_aff = lia, vi_n_dims = 3, vi_n_channels = 1,
           vi_header = (), vi_res = [1, 1, 1]\<rparr>
          (array1 [0, 1, 2, 3, 4, 5, 6]) 3 [()] [()] (array1 [0, 0, 1, 2, 3, 2, 3]))
       \<lparr>labels_to_image_model = (),
        model_output_shape = [Some 1, Some 2, Some 3, Some 1],
        model_inputs_generator = 0,
        brain_generator = Resumable\<rparr>"

text \<open>The same collaborators with a model that fails on the first bundle.\<close>

definition flaky_env :: "(unit, unit, nat, nat) collaborators" where
  "flaky_env =
     example_env\<lparr>predict := (\<lambda>m i.
        if i = 0 then (Inl (ExternalError ''out of memory''), m)
        else predict example_env m i)\<rparr>"

section \<open>Properties of construction\<close>

lemma and_then_Inl [simp]: "and_then (Inl e) f = Inl e"
  by (simp add: and_then_def)

lemma and_then_Inr [simp]: "and_then (Inr x) f = f x"
  by (simp add: and_then_def)

lemma and_then_eq_Inr: "and_then r f = Inr y \<longleftrightarrow> (\<exists>x. r = Inr x \<and> f x = Inr y)"
  by (cases r) simp_all

lemma py_assert_eq_Inr [simp]: "py_assert c msg = Inr u \<longleftrightarrow> c"
  by (simp add: py_assert_def)

lemma py_assert_True [simp]: "py_assert True msg = Inr ()"
  by (simp add: py_assert_def)

lemma py_assert_False [simp]: "py_assert False msg = Inl (AssertionError msg)"
  by (simp add: py_assert_def)

lemma unique_is_range:
  fixes xs :: "int list"
  shows "sort (remdups xs) = [0..Max (set xs)] \<longleftrightarrow> set xs = {0..Max (set xs)}"
proof
  assume "sort (remdups xs) = [0..Max (set xs)]"
  then have "set (sort (remdups xs)) = set [0..Max (set xs)]" by simp
  then show "set xs = {0..Max (set xs)}" by simp
next
  assume *: "set xs = {0..Max (set xs)}"
  have "sort (remdups xs) = sorted_list_of_set (set xs)"
    by (simp add: sorted_list_of_set_sort_remdups)
  also have "\<dots> = sorted_list_of_set {0..Max (set xs)}" using * by simp
  also have "\<dots> = [0..Max (set xs)]" by (rule sorted_lift_of_set_eq_upto)
  finally show "sort (remdups xs) = [0..Max (set xs)]" .
qed

lemma sort_remdups_eq_Nil [simp]: "sort (remdups xs) = [] \<longleftrightarrow> xs = []"
proof -
  have "set (sort (remdups xs)) = set xs" by simp
  then show ?thesis by (metis set_empty)
qed

lemma np_unique_simps [simp]:
  "data (np_unique a) = sort (remdups (data a))"
  "shape (np_unique a) = [length (remdups (data a))]"
  by (simp_all add: np_unique_def array1_def)

lemma np_arange_simps [simp]:
  "data (np_arange n) = [0..n - 1]"
  "shape (np_arange n) = [nat n]"
  by (simp_all add: np_arange_def array1_def)

lemma classes_check:
  "np_max (np_unique gc) = Inr m \<Longrightarrow>
   np_array_equal (np_unique gc) (np_arange (m + 1)) \<longleftrightarrow>
     set (data gc) = {0..Max (set (data gc))}"
proof -
  assume "np_max (np_unique gc) = Inr m"
  then have m: "m = Max (set (data gc))" and ne: "data gc \<noteq> []"
    by (auto simp: np_max_def split: if_splits)
  have "np_array_equal (np_unique gc) (np_arange (m + 1)) \<longleftrightarrow>
        sort (remdups (data gc)) = [0..m]"
  proof
    assume "np_array_equal (np_unique gc) (np_arange (m + 1))"
    then show "sort (remdups (data gc)) = [0..m]" by (simp add: np_array_equal_def)
  next
    assume e: "sort (remdups (data gc)) = [0..m]"
    then have "length (sort (remdups (data gc))) = length [0..m]" by simp
    then have "length (remdups (data gc)) = nat (m + 1)" by simp
    with e show "np_array_equal (np_unique gc) (np_arange (m + 1))"
      by (simp add: np_array_equal_def)
  qed
  then show ?thesis using m unique_is_range [of "data gc"] by simp
qed

lemma init_generation_classes_given:
  assumes "arg_generation_classes a = Some gc"
  shows "init_generation_classes a gl = Inr gc' \<longleftrightarrow>
           gc' = gc \<and> shape gc = shape gl \<and> data gc \<noteq> [] \<and>
           set (data gc) = {0..Max (set (data gc))}"
proof (cases "shape gc = shape gl")
  case False
  then show ?thesis using assms by (simp add: init_generation_classes_def)
next
  case True
  show ?thesis
  proof (cases "data gc = []")
    case True
    then show ?thesis using assms \<open>shape gc = shape gl\<close>
      by (simp add: init_generation_classes_def np_max_def)
  next
    case False
    then have mx: "np_max (np_unique gc) = Inr (Max (set (data gc)))"
      by (simp add: np_max_def)
    show ?thesis using assms True False classes_check [OF mx]
      by (auto simp: init_generation_classes_def mx Let_def py_assert_def)
  qed
qed

lemma build_generators_config:
  "build_generators env c = Inr g \<Longrightarrow> config.truncate g = c \<and> brain_generator g = Resumable"
  by (auto simp: build_generators_def and_then_eq_Inr config.defs)

lemma init_from_files_Inr:
  "init_from_files env a lp ip = Inr g \<longleftrightarrow>
     (\<exists>p0 vi gl nn ic oc gc.
        first_path lp = Inr p0 \<and> get_volume_info env p0 (eye 4) = Inr vi \<and>
        init_generation_labels env a = Inr gl \<and> init_n_neutral_labels a gl = Inr nn \<and>
        reformat_to_list env (arg_input_channels a) = Inr ic \<and>
        reformat_to_list env (arg_output_channel a) = Inr oc \<and>
        init_generation_classes a gl = Inr gc \<and>
        build_generators env (make_config a lp ip vi gl nn ic oc gc) = Inr g)"
  by (simp add: init_from_files_def and_then_eq_Inr)

lemma init_Inr:
  "init env a = Inr g \<longleftrightarrow>
     (\<exists>lp ip. prepare_data_files env a = Inr (lp, ip) \<and> init_from_files env a lp ip = Inr g)"
  by (auto simp: init_def and_then_eq_Inr)


lemma native_space_frame:
  "aff g = aff g' \<Longrightarrow> n_dims g = n_dims g' \<Longrightarrow>
   native_space env g im tg is li lt = native_space env g' im tg is li lt"
  by (induction "is" arbitrary: li lt) simp_all

lemma put_back_frame:
  "aff g = aff g' \<Longrightarrow> n_dims g = n_dims g' \<Longrightarrow> batchsize g = batchsize g' \<Longrightarrow>
   put_back_in_native_space env g im tg = put_back_in_native_space env g' im tg"
  by (simp add: put_back_in_native_space_def native_space_frame [of g g'])

lemma generate_brain_classes:
  "fst (generate_brain env (g\<lparr>generation_classes := x\<rparr>)) = fst (generate_brain env g)"
proof -
  have "put_back_in_native_space env (g\<lparr>generation_classes := x, labels_to_image_model := m,
            model_inputs_generator := s\<rparr>) im tg
        = put_back_in_native_space env (g\<lparr>labels_to_image_model := m, model_inputs_generator := s\<rparr>)
            im tg" for m s im tg
    by (rule put_back_frame) simp_all
  then show ?thesis
    by (simp add: generate_brain_def next_brain_generator_def
        split: gen_status.splits prod.splits sum.splits)
qed

lemma init_config:
  assumes "init env a = Inr g"
  shows "\<exists>lp ip p0 vi gl nn ic oc gc.
    prepare_data_files env a = Inr (lp, ip) \<and> first_path lp = Inr p0 \<and>
    get_volume_info env p0 (eye 4) = Inr vi \<and>
    init_generation_labels env a = Inr gl \<and> init_n_neutral_labels a gl = Inr nn \<and>
    reformat_to_list env (arg_input_channels a) = Inr ic \<and>
    reformat_to_list env (arg_output_channel a) = Inr oc \<and>
    init_generation_classes a gl = Inr gc \<and>
    build_generators env (make_config a lp ip vi gl nn ic oc gc) = Inr g \<and>
    config.truncate g = make_config a lp ip vi gl nn ic oc gc"
proof -
  from assms obtain lp ip where 1: "prepare_data_files env a = Inr (lp, ip)"
    and 2: "init_from_files env a lp ip = Inr g"
    unfolding init_Inr by blast
  from 2 obtain p0 vi gl nn ic oc gc where 3:
    "first_path lp = Inr p0" "get_volume_info env p0 (eye 4) = Inr vi"
    "init_generation_labels env a = Inr gl" "init_n_neutral_labels a gl = Inr nn"
    "reformat_to_list env (arg_input_channels a) = Inr ic"
    "reformat_to_list env (arg_output_channel a) = Inr oc"
    "init_generation_classes a gl = Inr gc"
    "build_generators env (make_config a lp ip vi gl nn ic oc gc) = Inr g"
    unfolding init_from_files_Inr by blast
  from 3(8) have "config.truncate g = make_config a lp ip vi gl nn ic oc gc"
    by (simp add: build_generators_config)
  with 1 3 show ?thesis by blast
qed

lemma truncate_fields:
  "config.truncate g = c \<Longrightarrow>
     generation_labels g = generation_labels c \<and> generation_classes g = generation_classes c \<and>
     n_neutral_labels g = n_neutral_labels c \<and> aff g = aff c \<and> n_dims g = n_dims c \<and>
     labels_paths g = labels_paths c \<and> images_paths g = images_paths c \<and>
     batchsize g = batchsize c"
  by (auto simp: config.defs)

lemma make_config_fields [simp]:
  "generation_labels (make_config a lp ip vi gl nn ic oc gc) = gl"
  "generation_classes (make_config a lp ip vi gl nn ic oc gc) = gc"
  "n_neutral_labels (make_config a lp ip vi gl nn ic oc gc) = nn"
  "aff (make_config a lp ip vi gl nn ic oc gc) = vi_aff vi"
  "n_dims (make_config a lp ip vi gl nn ic oc gc) = vi_n_dims vi"
  "labels_paths (make_config a lp ip vi gl nn ic oc gc) = lp"
  "images_paths (make_config a lp ip vi gl nn ic oc gc) = ip"
  "batchsize (make_config a lp ip vi gl nn ic oc gc) = batchsize a"
  by (simp_all add: make_config_def)

text \<open>
  Claim C3. When \<open>generation_classes\<close> is supplied, construction succeeds only if the
  set of its values is the range from 0 to its maximum without a gap: an array that
  is empty, has a gap or does not start at 0 makes \<^verbatim>\<open>__init__\<close> fail. The check is
  part of construction only: what \<open>generate_brain\<close> returns does not depend on the
  class map stored in the object.
\<close>

theorem generation_classes_contiguous:
  assumes "arg_generation_classes a = Some gc"
  shows "(init env a = Inr g \<longrightarrow>
            generation_classes g = gc \<and> data gc \<noteq> [] \<and>
            set (data gc) = {0..Max (set (data gc))})
       \<and> (data gc = [] \<or> set (data gc) \<noteq> {0..Max (set (data gc))} \<longrightarrow> isl (init env a))
       \<and> (\<forall>x. fst (generate_brain env (g\<lparr>generation_classes := x\<rparr>)) = fst (generate_brain env g))"
proof -
  have 1: "generation_classes g = gc \<and> data gc \<noteq> [] \<and> set (data gc) = {0..Max (set (data gc))}"
    if "init env a = Inr g" for g :: "('a, 'b, 'c) BrainGenerator"
  proof -
    from init_config [OF that] obtain lp ip vi gl nn ic oc gc' where
      c: "init_generation_classes a gl = Inr gc'"
      and t: "config.truncate g = make_config a lp ip vi gl nn ic oc gc'"
      by blast
    from c assms have "gc' = gc \<and> data gc \<noteq> [] \<and> set (data gc) = {0..Max (set (data gc))}"
      by (simp add: init_generation_classes_given)
    moreover from t have "generation_classes g = gc'"
      using truncate_fields [OF t] by simp
    ultimately show ?thesis by simp
  qed
  have 2: "isl (init env a)"
    if "data gc = [] \<or> set (data gc) \<noteq> {0..Max (set (data gc))}"
  proof (cases "init env a")
    case (Inl e)
    then show ?thesis by simp
  next
    case (Inr g')
    from 1 [OF Inr] that show ?thesis by blast
  qed
  from 1 2 show ?thesis by (simp add: generate_brain_classes)
qed

text \<open>
  Claim C6. When \<open>images_dir\<close> is given and both folders can be listed, construction
  fails with the count-mismatch assertion if the two listings differ in length; if
  they have the same length the check passes and construction goes on with the rest
  of \<^verbatim>\<open>__init__\<close>.
\<close>

theorem image_count_check:
  assumes "list_images_in_folder env (labels_dir a) = Inr lp"
    and "images_dir a = Some d"
    and "list_images_in_folder env d = Inr ip"
  shows "(length lp \<noteq> length ip \<longrightarrow>
            init env a = Inl (AssertionError ''Different number of images and segmentations''))
       \<and> (length lp = length ip \<longrightarrow>
            prepare_data_files env a = Inr (lp, Some ip) \<and>
            init env a = init_from_files env a lp (Some ip))"
  using assms by (simp add: init_def prepare_data_files_def)


text \<open>
  Claim C7. When \<open>generation_classes\<close> is supplied, a constructed generator has
  generation labels of the same shape; a different shape makes the check of
  \<^verbatim>\<open>__init__\<close> raise its assertion with its message, and construction fail, with
  that assertion when the steps of \<^verbatim>\<open>__init__\<close> before the check went through.
\<close>

theorem generation_classes_shape_check:
  assumes "arg_generation_classes a = Some gc"
  shows "(init env a = Inr g \<longrightarrow> shape gc = shape (generation_labels g))
       \<and> (\<forall>gl. shape gc \<noteq> shape gl \<longrightarrow>
              init_generation_classes a gl = Inl (AssertionError
                ''if provided, generation labels should have the same shape as generation_labels''))
       \<and> (\<forall>gl. init_generation_labels env a = Inr gl \<and> shape gc \<noteq> shape gl \<longrightarrow>
              isl (init env a))
       \<and> (\<forall>lp ip p0 vi gl nn ic oc.
              prepare_data_files env a = Inr (lp, ip) \<and> first_path lp = Inr p0 \<and>
              get_volume_info env p0 (eye 4) = Inr vi \<and>
              init_generation_labels env a = Inr gl \<and> init_n_neutral_labels a gl = Inr nn \<and>
              reformat_to_list env (arg_input_channels a) = Inr ic \<and>
              reformat_to_list env (arg_output_channel a) = Inr oc \<and>
              shape gc \<noteq> shape gl \<longrightarrow>
              init env a = Inl (AssertionError
                ''if provided, generation labels should have the same shape as generation_labels''))"
proof -
  have 1: "shape gc = shape (generation_labels g) \<and> init_generation_labels env a = Inr (generation_labels g)"
    if "init env a = Inr g" for g :: "('a, 'b, 'c) BrainGenerator"
  proof -
    from init_config [OF that] obtain lp ip vi gl nn ic oc gc' where
      l: "init_generation_labels env a = Inr gl"
      and c: "init_generation_classes a gl = Inr gc'"
      and t: "config.truncate g = make_config a lp ip vi gl nn ic oc gc'"
      by blast
    from c assms have "shape gc = shape gl"
      by (simp add: init_generation_classes_given)
    moreover from t have "generation_labels g = gl"
      using truncate_fields [OF t] by simp
    ultimately show ?thesis using l by simp
  qed
  have 2: "init_generation_classes a gl = Inl (AssertionError
      ''if provided, generation labels should have the same shape as generation_labels'')"
    if "shape gc \<noteq> shape gl" for gl
    using that assms by (simp add: init_generation_classes_def)
  have 3: "isl (init env a)"
    if "init_generation_labels env a = Inr gl" "shape gc \<noteq> shape gl" for gl
  proof (cases "init env a")
    case (Inl e)
    then show ?thesis by simp
  next
    case (Inr g')
    from 1 [OF Inr] that show ?thesis by simp
  qed
  have 4: "init env a = Inl (AssertionError
      ''if provided, generation labels should have the same shape as generation_labels'')"
    if "prepare_data_files env a = Inr (lp, ip)" "first_path lp = Inr p0"
      "get_volume_info env p0 (eye 4) = Inr vi"
      "init_generation_labels env a = Inr gl" "init_n_neutral_labels a gl = Inr nn"
      "reformat_to_list env (arg_input_channels a) = Inr ic"
      "reformat_to_list env (arg_output_channel a) = Inr oc"
      "shape gc \<noteq> shape gl"
    for lp ip p0 vi gl nn ic oc
    using that 2 [of gl] by (simp add: init_def init_from_files_def)
  from 1 2 3 4 show ?thesis by blast
qed

lemma upto_map_int: "[0..int n - 1] = map int [0..<n]"
proof (induction n)
  case 0
  then show ?case by simp
next
  case (Suc n)
  have "[0..int (Suc n) - 1] = [0..int n - 1] @ [int n]"
    using upto_rec2 [of 0 "int n"] by simp
  with Suc show ?case by simp
qed

lemma init_generation_classes_default:
  "arg_generation_classes a = None \<Longrightarrow>
   init_generation_classes a gl = Inr gc \<longleftrightarrow>
     (\<exists>n ns. shape gl = n # ns \<and> gc = array1 (map int [0..<n]))"
  by (auto simp: init_generation_classes_def shape0_def np_arange_def upto_map_int
      split: list.splits)

text \<open>
  Claim C8. Without \<open>generation_classes\<close>, the class map of a constructed generator
  is \<open>0, 1, \<dots>, n - 1\<close> for the length \<open>n\<close> of the first axis of the generation
  labels: position \<open>i\<close> has class \<open>i\<close>, the classes are pairwise distinct, and for
  a one-dimensional label array there are as many classes as labels.
\<close>

theorem default_generation_classes:
  assumes "arg_generation_classes a = None" and "init env a = Inr g"
  shows "\<exists>n ns. shape (generation_labels g) = n # ns
       \<and> generation_classes g = array1 (map int [0..<n])
       \<and> (\<forall>i<n. data (generation_classes g) ! i = int i)
       \<and> distinct (data (generation_classes g))
       \<and> card (set (data (generation_classes g))) = n
       \<and> (ns = [] \<and> well_shaped (generation_labels g) \<longrightarrow>
            card (set (data (generation_classes g))) = length (data (generation_labels g)))"
proof -
  from init_config [OF assms(2)] obtain lp ip vi gl nn ic oc gc where
    c: "init_generation_classes a gl = Inr gc"
    and t: "config.truncate g = make_config a lp ip vi gl nn ic oc gc"
    by blast
  from c assms(1) obtain n ns where s: "shape gl = n # ns" and gc: "gc = array1 (map int [0..<n])"
    by (auto simp: init_generation_classes_default)
  from t have f: "generation_labels g = gl" "generation_classes g = gc"
    using truncate_fields [OF t] by simp_all
  have d: "distinct (map int [0..<n])"
    by (simp add: distinct_map)
  then have k: "card (set (map int [0..<n])) = n"
    using distinct_card [OF d] by simp
  show ?thesis
    using s gc f d k by (auto simp: array1_def well_shaped_def)
qed

lemma init_n_neutral_update:
  "prepare_data_files env (a\<lparr>arg_n_neutral_labels := k\<rparr>) = prepare_data_files env a"
  "init_generation_labels env (a\<lparr>arg_n_neutral_labels := k\<rparr>) = init_generation_labels env a"
  "init_generation_classes (a\<lparr>arg_n_neutral_labels := k\<rparr>) gl = init_generation_classes a gl"
  "make_config (a\<lparr>arg_n_neutral_labels := k\<rparr>) lp ip vi gl nn ic oc gc = make_config a lp ip vi gl nn ic oc gc"
  by (simp_all add: prepare_data_files_def init_generation_labels_def
      init_generation_classes_def make_config_def split: option.splits)

text \<open>
  Claim C10. Without \<open>n_neutral_labels\<close>, a constructed generator has the length of
  the first axis of its generation labels as number of neutral labels; for a
  one-dimensional label array every label is then neutral, and the relabelling of the
  flip changes no label. A supplied value is stored as it is: \<^verbatim>\<open>__init__\<close> itself
  never checks it, so construction with another value differs only in the value handed
  to the builders.
\<close>

lemma swap_labels_all_neutral: "length label_list \<le> n \<Longrightarrow> swap_labels label_list n l = l"
  by (simp add: swap_labels_def)

theorem n_neutral_labels_default:
  "(arg_n_neutral_labels a = None \<and> init env a = Inr g \<longrightarrow>
      (\<exists>n ns. shape (generation_labels g) = n # ns \<and> n_neutral_labels g = int n))
 \<and> (arg_n_neutral_labels a = Some k \<and> init env a = Inr g \<longrightarrow> n_neutral_labels g = k)
 \<and> (\<forall>gl. init_n_neutral_labels (a\<lparr>arg_n_neutral_labels := Some k\<rparr>) gl = Inr k)
 \<and> (init env (a\<lparr>arg_n_neutral_labels := Some k\<rparr>) = Inr g \<longrightarrow>
      init env (a\<lparr>arg_n_neutral_labels := Some k'\<rparr>)
        = build_generators env ((config.truncate g)\<lparr>n_neutral_labels := k'\<rparr>))
 \<and> (arg_n_neutral_labels a = None \<and> init env a = Inr g \<and>
     shape (generation_labels g) = [length (data (generation_labels g))] \<longrightarrow>
      (\<forall>l. swap_labels (data (generation_labels g)) (nat (n_neutral_labels g)) l = l))"
proof -
  have 1: "\<exists>n ns. shape (generation_labels g) = n # ns \<and> n_neutral_labels g = int n"
    if "arg_n_neutral_labels a = None" "init env a = Inr g"
  proof -
    from init_config [OF that(2)] obtain lp ip vi gl nn ic oc gc where
      n: "init_n_neutral_labels a gl = Inr nn"
      and t: "config.truncate g = make_config a lp ip vi gl nn ic oc gc"
      by blast
    from t have "generation_labels g = gl" "n_neutral_labels g = nn"
      using truncate_fields [OF t] by simp_all
    with n that(1) show ?thesis
      by (auto simp: init_n_neutral_labels_def shape0_def split: list.splits)
  qed
  have 2: "n_neutral_labels g = k"
    if "arg_n_neutral_labels a = Some k" "init env a = Inr g"
  proof -
    from init_config [OF that(2)] obtain lp ip vi gl nn ic oc gc where
      n: "init_n_neutral_labels a gl = Inr nn"
      and t: "config.truncate g = make_config a lp ip vi gl nn ic oc gc"
      by blast
    from t have "n_neutral_labels g = nn"
      using truncate_fields [OF t] by simp
    with n that(1) show ?thesis
      by (simp add: init_n_neutral_labels_def)
  qed
  have 3: "init_n_neutral_labels (a\<lparr>arg_n_neutral_labels := Some k\<rparr>) gl = Inr k" for gl
    by (simp add: init_n_neutral_labels_def)
  have 4: "init env (a\<lparr>arg_n_neutral_labels := Some k'\<rparr>)
        = build_generators env ((config.truncate g)\<lparr>n_neutral_labels := k'\<rparr>)"
    if "init env (a\<lparr>arg_n_neutral_labels := Some k\<rparr>) = Inr g"
  proof -
    from init_config [OF that] obtain lp ip p0 vi gl nn ic oc gc where
      s: "prepare_data_files env a = Inr (lp, ip)" "first_path lp = Inr p0"
         "get_volume_info env p0 (eye 4) = Inr vi"
         "init_generation_labels env a = Inr gl"
         "reformat_to_list env (arg_input_channels a) = Inr ic"
         "reformat_to_list env (arg_output_channel a) = Inr oc"
         "init_generation_classes a gl = Inr gc"
      and n: "init_n_neutral_labels (a\<lparr>arg_n_neutral_labels := Some k\<rparr>) gl = Inr nn"
      and t: "config.truncate g = make_config a lp ip vi gl nn ic oc gc"
      by (auto simp: init_n_neutral_update)
    have "(make_config a lp ip vi gl nn ic oc gc)\<lparr>n_neutral_labels := k'\<rparr>
          = make_config a lp ip vi gl k' ic oc gc"
      by (simp add: make_config_def)
    with s t show ?thesis
      by (simp add: init_def init_from_files_def init_n_neutral_update init_n_neutral_labels_def)
  qed
  have 5: "swap_labels (data (generation_labels g)) (nat (n_neutral_labels g)) l = l"
    if "arg_n_neutral_labels a = None" "init env a = Inr g"
      "shape (generation_labels g) = [length (data (generation_labels g))]" for l
  proof -
    from 1 [OF that(1,2)] that(3)
    have "n_neutral_labels g = int (length (data (generation_labels g)))"
      by auto
    then show ?thesis
      by (simp add: swap_labels_all_neutral)
  qed
  from 1 2 3 4 5 show ?thesis by blast
qed


lemma init_example: "init example_env example_args = Inr example_generator"
  by code_simp

text \<open>The class map of the example is accepted; \<open>[0, 0, 2]\<close> is refused.\<close>

theorem generation_classes_contiguous_witness:
  "arg_generation_classes example_args = Some (array1 [0, 0, 1, 2, 3, 2, 3])
   \<and> init example_env example_args = Inr example_generator
   \<and> generation_classes example_generator = array1 [0, 0, 1, 2, 3, 2, 3]
   \<and> set [0, 0, 2] \<noteq> {0..Max (set [0, 0, 2 :: int])}
   \<and> isl (init example_env
        (example_args\<lparr>arg_generation_labels := Some (array1 [10, 11, 12]),
                       arg_generation_classes := Some (array1 [0, 0, 2])\<rparr>))"
proof -
  have a: "arg_generation_classes example_args = Some (array1 [0, 0, 1, 2, 3, 2, 3])"
    by (simp add: example_args_def)
  have gap: "set [0, 0, 2] \<noteq> {0..Max (set [0, 0, 2 :: int])}"
  proof
    assume "set [0, 0, 2] = {0..Max (set [0, 0, 2 :: int])}"
    moreover have "(1::int) \<in> {0..Max (set [0, 0, 2 :: int])}" by simp
    ultimately have "(1::int) \<in> set [0, 0, 2]" by blast
    then show False by simp
  qed
  from generation_classes_contiguous [OF a, of example_env example_generator] init_example
  have "generation_classes example_generator = array1 [0, 0, 1, 2, 3, 2, 3]"
    by blast
  moreover
  have "arg_generation_classes
          (example_args\<lparr>arg_generation_labels := Some (array1 [10, 11, 12]),
                        arg_generation_classes := Some (array1 [0, 0, 2])\<rparr>)
        = Some (array1 [0, 0, 2])"
    by simp
  from generation_classes_contiguous [OF this, of example_env example_generator] gap
  have "isl (init example_env
        (example_args\<lparr>arg_generation_labels := Some (array1 [10, 11, 12]),
                       arg_generation_classes := Some (array1 [0, 0, 2])\<rparr>))"
    by (simp add: array1_def)
  ultimately show ?thesis using a gap init_example by simp
qed

text \<open>One label map against two images, and against one image.\<close>

theorem image_count_check_witness:
  "init example_env (example_args\<lparr>images_dir := Some ''more_images''\<rparr>)
     = Inl (AssertionError ''Different number of images and segmentations'')
   \<and> prepare_data_files example_env (example_args\<lparr>images_dir := Some ''images''\<rparr>)
     = Inr ([''labels/a.nii''], Some [''images/a.nii''])
   \<and> init example_env (example_args\<lparr>images_dir := Some ''images''\<rparr>)
     = init_from_files example_env (example_args\<lparr>images_dir := Some ''images''\<rparr>)
         [''labels/a.nii''] (Some [''images/a.nii''])"
proof -
  have l: "list_images_in_folder example_env ''labels'' = Inr [''labels/a.nii'']"
    and i: "list_images_in_folder example_env ''images'' = Inr [''images/a.nii'']"
    and m: "list_images_in_folder example_env ''more_images''
              = Inr [''more_images/a.nii'', ''more_images/b.nii'']"
    by (simp_all add: example_env_def)
  have d: "labels_dir example_args = ''labels''"
    by (simp add: example_args_def)
  from image_count_check [of example_env "example_args\<lparr>images_dir := Some ''more_images''\<rparr>"
      "[''labels/a.nii'']" "''more_images''" "[''more_images/a.nii'', ''more_images/b.nii'']"]
    image_count_check [of example_env "example_args\<lparr>images_dir := Some ''images''\<rparr>"
      "[''labels/a.nii'']" "''images''" "[''images/a.nii'']"]
    l i m d
  show ?thesis by simp
qed

text \<open>Three classes for seven labels are refused.\<close>

theorem generation_classes_shape_check_witness:
  "shape (array1 [0, 0, 1 :: int]) \<noteq> shape (generation_labels example_generator)
   \<and> isl (init example_env (example_args\<lparr>arg_generation_classes := Some (array1 [0, 0, 1])\<rparr>))
   \<and> init_generation_classes (example_args\<lparr>arg_generation_classes := Some (array1 [0, 0, 1])\<rparr>)
        (array1 [0, 1, 2, 3, 4, 5, 6])
      = Inl (AssertionError
          ''if provided, generation labels should have the same shape as generation_labels'')
   \<and> shape (array1 [0, 0, 1, 2, 3, 2, 3 :: int]) = shape (generation_labels example_generator)
   \<and> init example_env (example_args\<lparr>arg_generation_classes := Some (array1 [0, 0, 1])\<rparr>)
      = Inl (AssertionError
          ''if provided, generation labels should have the same shape as generation_labels'')"
proof -
  have gl: "generation_labels example_generator = array1 [0, 1, 2, 3, 4, 5, 6]"
    by (simp add: example_generator_def config.defs make_config_def)
  have il: "init_generation_labels example_env
              (example_args\<lparr>arg_generation_classes := Some (array1 [0, 0, 1])\<rparr>)
            = Inr (array1 [0, 1, 2, 3, 4, 5, 6])"
    by (simp add: init_generation_labels_def example_args_def)
  have ne: "shape (array1 [0, 0, 1 :: int]) \<noteq> shape (array1 [0, 1, 2, 3, 4, 5, 6 :: int])"
    by (simp add: array1_def)
  have a: "arg_generation_classes example_args = Some (array1 [0, 0, 1, 2, 3, 2, 3])"
    by (simp add: example_args_def)
  have e: "init example_env (example_args\<lparr>arg_generation_classes := Some (array1 [0, 0, 1])\<rparr>)
      = Inl (AssertionError
          ''if provided, generation labels should have the same shape as generation_labels'')"
    by code_simp
  from generation_classes_shape_check [of
      "example_args\<lparr>arg_generation_classes := Some (array1 [0, 0, 1])\<rparr>" "array1 [0, 0, 1]"
      example_env example_generator] il ne
    generation_classes_shape_check [OF a, of example_env example_generator] init_example gl e
  show ?thesis by simp
qed

text \<open>Seven labels get the classes 0 to 6.\<close>

theorem default_generation_classes_witness:
  "\<exists>g. init example_env (example_args\<lparr>arg_generation_classes := None\<rparr>) = Inr g
     \<and> generation_classes g = array1 [0, 1, 2, 3, 4, 5, 6]
     \<and> card (set (data (generation_classes g))) = length (data (generation_labels g))"
proof -
  have i: "init example_env (example_args\<lparr>arg_generation_classes := None\<rparr>)
           = Inr (example_generator\<lparr>generation_classes := array1 [0, 1, 2, 3, 4, 5, 6]\<rparr>)"
    by code_simp
  have gl: "generation_labels (example_generator\<lparr>generation_classes := array1 [0, 1, 2, 3, 4, 5, 6]\<rparr>)
            = array1 [0, 1, 2, 3, 4, 5, 6]"
    by (simp add: example_generator_def config.defs make_config_def)
  have u: "map int [0..<7] = [0, 1, 2, 3, 4, 5, 6]"
    by code_simp
  from default_generation_classes [OF _ i] gl u
  show ?thesis
    by (auto simp: i array1_def well_shaped_def)
qed

text \<open>
  Seven labels: the default is 7, and 4 is accepted although three sided labels cannot
  be split into two halves.
\<close>

theorem n_neutral_labels_default_witness:
  "(\<exists>g. init example_env (example_args\<lparr>arg_n_neutral_labels := None\<rparr>) = Inr g
        \<and> n_neutral_labels g = 7)
   \<and> n_neutral_labels example_generator = 3
   \<and> init example_env (example_args\<lparr>arg_n_neutral_labels := Some 4\<rparr>)
       = build_generators example_env
           ((config.truncate example_generator)\<lparr>n_neutral_labels := 4\<rparr>)
   \<and> \<not> isl (init example_env (example_args\<lparr>arg_n_neutral_labels := Some 4\<rparr>))
   \<and> odd (length (data (generation_labels example_generator)) - 4)
   \<and> swap_labels [0, 1, 2, 3, 4, 5, 6] 7 5 = 5"
proof -
  have i: "init example_env (example_args\<lparr>arg_n_neutral_labels := None\<rparr>)
           = Inr (example_generator\<lparr>n_neutral_labels := 7\<rparr>)"
    by code_simp
  have gl: "generation_labels (example_generator\<lparr>n_neutral_labels := 7\<rparr>)
            = array1 [0, 1, 2, 3, 4, 5, 6]"
       "generation_labels example_generator = array1 [0, 1, 2, 3, 4, 5, 6]"
    by (simp_all add: example_generator_def config.defs make_config_def)
  have e: "example_args\<lparr>arg_n_neutral_labels := Some 3\<rparr> = example_args"
    by (simp add: example_args_def)
  have s: "\<not> isl (init example_env (example_args\<lparr>arg_n_neutral_labels := Some 4\<rparr>))"
    by code_simp
  from n_neutral_labels_default [of "example_args\<lparr>arg_n_neutral_labels := None\<rparr>"
      example_env "example_generator\<lparr>n_neutral_labels := 7\<rparr>" 0 0] i gl
  have 1: "n_neutral_labels (example_generator\<lparr>n_neutral_labels := 7\<rparr>) = 7
      \<and> swap_labels [0, 1, 2, 3, 4, 5, 6] 7 5 = 5"
    by (simp add: array1_def)
  from n_neutral_labels_default [of example_args example_env example_generator 3 4]
    init_example e
  have 2: "n_neutral_labels example_generator = 3
     \<and> init example_env (example_args\<lparr>arg_n_neutral_labels := Some 4\<rparr>)
       = build_generators example_env
           ((config.truncate example_generator)\<lparr>n_neutral_labels := 4\<rparr>)"
    by (simp add: example_args_def)
  from 1 2 i s gl show ?thesis by (simp add: array1_def)
qed

section \<open>Properties of batch generation\<close>

lemma native_space_Inr:
  "native_space env g im tg is li lt = Inr (li', lt') \<Longrightarrow>
   \<exists>xs ys. li' = li @ xs \<and> lt' = lt @ ys \<and> length xs = length is \<and> length ys = length is \<and>
     (\<forall>j<length is. \<exists>image_i target_i.
        getitem im (is ! j) = Inr image_i \<and>
        align_volume_to_ref env image_i (eye 4) (aff g) (n_dims g) = Inr (xs ! j) \<and>
        getitem tg (is ! j) = Inr target_i \<and>
        align_volume_to_ref env target_i (eye 4) (aff g) (n_dims g) = Inr (ys ! j))"
proof (induction "is" arbitrary: li lt)
  case Nil
  then show ?case by simp
next
  case (Cons i "is")
  from Cons.prems obtain image_i a_i target_i a_t where
    1: "getitem im i = Inr image_i"
       "align_volume_to_ref env image_i (eye 4) (aff g) (n_dims g) = Inr a_i"
       "getitem tg i = Inr target_i"
       "align_volume_to_ref env target_i (eye 4) (aff g) (n_dims g) = Inr a_t"
    and 2: "native_space env g im tg is (li @ [a_i]) (lt @ [a_t]) = Inr (li', lt')"
    by (auto simp: and_then_eq_Inr)
  from Cons.IH [OF 2] obtain xs ys where
    3: "li' = (li @ [a_i]) @ xs" "lt' = (lt @ [a_t]) @ ys"
       "length xs = length is" "length ys = length is"
    and 4: "\<forall>j<length is. \<exists>image_i target_i.
        getitem im (is ! j) = Inr image_i \<and>
        align_volume_to_ref env image_i (eye 4) (aff g) (n_dims g) = Inr (xs ! j) \<and>
        getitem tg (is ! j) = Inr target_i \<and>
        align_volume_to_ref env target_i (eye 4) (aff g) (n_dims g) = Inr (ys ! j)"
    by blast
  have "\<forall>j<length (i # is). \<exists>image_i target_i.
        getitem im ((i # is) ! j) = Inr image_i \<and>
        align_volume_to_ref env image_i (eye 4) (aff g) (n_dims g) = Inr ((a_i # xs) ! j) \<and>
        getitem tg ((i # is) ! j) = Inr target_i \<and>
        align_volume_to_ref env target_i (eye 4) (aff g) (n_dims g) = Inr ((a_t # ys) ! j)"
  proof (intro allI impI)
    fix j assume "j < length (i # is)"
    then show "\<exists>image_i target_i.
        getitem im ((i # is) ! j) = Inr image_i \<and>
        align_volume_to_ref env image_i (eye 4) (aff g) (n_dims g) = Inr ((a_i # xs) ! j) \<and>
        getitem tg ((i # is) ! j) = Inr target_i \<and>
        align_volume_to_ref env target_i (eye 4) (aff g) (n_dims g) = Inr ((a_t # ys) ! j)"
      using 1 4 by (cases j) auto
  qed
  with 3 show ?case
    by (intro exI [of _ "a_i # xs"] exI [of _ "a_t # ys"]) simp
qed

lemma put_back_Inr:
  assumes "put_back_in_native_space env g im tg = Inr (im', tg')"
  shows "\<exists>li lt. np_stack li = Inr im' \<and> np_stack lt = Inr tg' \<and>
     length li = nat (batchsize g) \<and> length lt = nat (batchsize g) \<and>
     (\<forall>i<nat (batchsize g). \<exists>image_i target_i.
        getitem im i = Inr image_i \<and>
        align_volume_to_ref env image_i (eye 4) (aff g) (n_dims g) = Inr (li ! i) \<and>
        getitem tg i = Inr target_i \<and>
        align_volume_to_ref env target_i (eye 4) (aff g) (n_dims g) = Inr (lt ! i))"
proof -
  from assms obtain li lt where
    n: "native_space env g im tg [0..<nat (batchsize g)] [] [] = Inr (li, lt)"
    and s: "np_stack li = Inr im'" "np_stack lt = Inr tg'"
    by (auto simp: put_back_in_native_space_def and_then_eq_Inr)
  from native_space_Inr [OF n] s show ?thesis
    by (intro exI [of _ li] exI [of _ lt]) auto
qed

lemma next_brain_generator_Inr:
  "next_brain_generator env g = (Inr (im, tg), g') \<longleftrightarrow>
     brain_generator g = Resumable \<and>
     (\<exists>mi s' m'. next_model_inputs env (model_inputs_generator g) = (Inr mi, s') \<and>
        predict env (labels_to_image_model g) mi = (Inr (im, tg), m') \<and>
        g' = g\<lparr>labels_to_image_model := m', model_inputs_generator := s'\<rparr>)"
  by (auto simp: next_brain_generator_def split: gen_status.splits prod.splits sum.splits)

lemma next_brain_generator_frame:
  "\<exists>m s b. snd (next_brain_generator env g)
     = g\<lparr>labels_to_image_model := m, model_inputs_generator := s, brain_generator := b\<rparr>"
proof -
  have id: "g\<lparr>labels_to_image_model := labels_to_image_model g,
              model_inputs_generator := model_inputs_generator g,
              brain_generator := brain_generator g\<rparr> = g"
    by simp
  show ?thesis
  proof (cases "brain_generator g")
    case Finished
    then have "snd (next_brain_generator env g) = g"
      by (simp add: next_brain_generator_def)
    with id show ?thesis by metis
  next
    case Resumable
    obtain r s' where n: "next_model_inputs env (model_inputs_generator g) = (r, s')"
      by (cases "next_model_inputs env (model_inputs_generator g)")
    show ?thesis
    proof (cases r)
      case (Inl e)
      with Resumable n have "snd (next_brain_generator env g)
        = g\<lparr>labels_to_image_model := labels_to_image_model g,
            model_inputs_generator := s', brain_generator := Finished\<rparr>"
        by (simp add: next_brain_generator_def)
      then show ?thesis by blast
    next
      case (Inr mi)
      obtain r' m' where p: "predict env (labels_to_image_model g) mi = (r', m')"
        by (cases "predict env (labels_to_image_model g) mi")
      show ?thesis
      proof (cases r')
        case (Inl e)
        with Resumable n Inr p have "snd (next_brain_generator env g)
          = g\<lparr>labels_to_image_model := m', model_inputs_generator := s',
              brain_generator := Finished\<rparr>"
          by (simp add: next_brain_generator_def)
        then show ?thesis by blast
      next
        case (Inr out)
        with Resumable n \<open>r = Inr mi\<close> p have "snd (next_brain_generator env g)
          = g\<lparr>labels_to_image_model := m', model_inputs_generator := s',
              brain_generator := brain_generator g\<rparr>"
          by (simp add: next_brain_generator_def split: prod.splits)
        then show ?thesis by blast
      qed
    qed
  qed
qed

lemma generate_brain_frame:
  "\<exists>m s b. snd (generate_brain env g)
     = g\<lparr>labels_to_image_model := m, model_inputs_generator := s, brain_generator := b\<rparr>"
proof -
  have "snd (generate_brain env g) = snd (next_brain_generator env g)"
    by (simp add: generate_brain_def split: prod.splits sum.splits)
  then show ?thesis using next_brain_generator_frame [of env g] by simp
qed

lemma generate_brain_Inr:
  "generate_brain env g = (Inr (im, tg), g') \<longleftrightarrow>
     brain_generator g = Resumable \<and>
     (\<exists>mi s' m' image0 target0.
        next_model_inputs env (model_inputs_generator g) = (Inr mi, s') \<and>
        predict env (labels_to_image_model g) mi = (Inr (image0, target0), m') \<and>
        g' = g\<lparr>labels_to_image_model := m', model_inputs_generator := s'\<rparr> \<and>
        put_back_in_native_space env g image0 target0 = Inr (im, tg))"
proof -
  have f: "put_back_in_native_space env (g\<lparr>labels_to_image_model := m, model_inputs_generator := s\<rparr>) a b
      = put_back_in_native_space env g a b" for m s a b
    by (rule put_back_frame) simp_all
  obtain r g'' where n: "next_brain_generator env g = (r, g'')"
    by (cases "next_brain_generator env g")
  show ?thesis
  proof (cases r)
    case (Inl e)
    with n have "generate_brain env g = (Inl e, g'')"
      by (simp add: generate_brain_def)
    moreover from n Inl have "\<not> (\<exists>im tg g'. next_brain_generator env g = (Inr (im, tg), g'))"
      by simp
    ultimately show ?thesis
      unfolding next_brain_generator_Inr by auto
  next
    case (Inr out)
    obtain image0 target0 where out: "out = (image0, target0)" by (cases out)
    from n Inr out have nb: "next_brain_generator env g = (Inr (image0, target0), g'')"
      by simp
    then have gb: "generate_brain env g = (put_back_in_native_space env g'' image0 target0, g'')"
      by (simp add: generate_brain_def)
    from nb [unfolded next_brain_generator_Inr] obtain mi s' m' where
      d: "brain_generator g = Resumable"
         "next_model_inputs env (model_inputs_generator g) = (Inr mi, s')"
         "predict env (labels_to_image_model g) mi = (Inr (image0, target0), m')"
         "g'' = g\<lparr>labels_to_image_model := m', model_inputs_generator := s'\<rparr>"
      by blast
    from d(4) have pb: "put_back_in_native_space env g'' image0 target0
        = put_back_in_native_space env g image0 target0"
      by (simp add: f)
    show ?thesis
      using gb pb d by auto
  qed
qed


lemma generate_brain_config:
  "config.truncate (snd (generate_brain env g)) = config.truncate g"
proof -
  from generate_brain_frame [of env g] obtain m s b where
    "snd (generate_brain env g)
       = g\<lparr>labels_to_image_model := m, model_inputs_generator := s, brain_generator := b\<rparr>"
    by blast
  then show ?thesis by (simp add: config.defs)
qed


lemma generate_brains_model:
  "model_output_shape (snd (generate_brains env g n)) = model_output_shape g"
proof (induction n arbitrary: g)
  case 0
  then show ?case by simp
next
  case (Suc n)
  obtain r g1 where 1: "generate_brain env g = (r, g1)"
    by (cases "generate_brain env g")
  from generate_brain_frame [of env g] 1 have c1: "model_output_shape g1 = model_output_shape g"
    by auto
  show ?case
  proof (cases r)
    case (Inl e)
    with 1 c1 show ?thesis by simp
  next
    case (Inr batch)
    obtain r' g2 where 2: "generate_brains env g1 n = (r', g2)"
      by (cases "generate_brains env g1 n")
    then have "model_output_shape g2 = model_output_shape g1"
      using Suc.IH [of g1] by simp
    with 1 2 Inr c1 show ?thesis
      by (cases r') simp_all
  qed
qed

lemma example_fields:
  "batchsize example_generator = 1" "aff example_generator = lia" "n_dims example_generator = 3"
  "brain_generator example_generator = Resumable"
  "model_inputs_generator example_generator = 0"
  "labels_to_image_model example_generator = ()"
  by (simp_all add: example_generator_def config.defs make_config_def example_args_def)







lemma generate_example:
  "generate_brain example_env example_generator
     = (Inr (\<lparr>shape = [1, 1, 3, 2, 1], data = [2, 5, 1, 4, 0, 3]\<rparr>,
             \<lparr>shape = [1, 1, 3, 2, 1], data = [20, 50, 10, 40, 0, 30]\<rparr>),
        example_generator\<lparr>model_inputs_generator := 1\<rparr>)"
  by code_simp










lemma generate_brain_finished:
  "brain_generator h = Finished \<Longrightarrow> generate_brain env h = (Inl StopIteration, h)"
  by (simp add: generate_brain_def next_brain_generator_def)

lemma next_brain_generator_Inl:
  assumes "next_brain_generator env g = (Inl e, g')"
  shows "brain_generator g' = Finished"
proof (cases "brain_generator g")
  case Finished
  with assms show ?thesis by (simp add: next_brain_generator_def)
next
  case Resumable
  obtain r s' where n: "next_model_inputs env (model_inputs_generator g) = (r, s')"
    by (cases "next_model_inputs env (model_inputs_generator g)")
  show ?thesis
  proof (cases r)
    case (Inl e')
    with Resumable n assms show ?thesis
      by (auto simp: next_brain_generator_def)
  next
    case (Inr mi)
    obtain r' m' where p: "predict env (labels_to_image_model g) mi = (r', m')"
      by (cases "predict env (labels_to_image_model g) mi")
    show ?thesis
    proof (cases r')
      case (Inl e')
      with Resumable n Inr p assms show ?thesis
        by (auto simp: next_brain_generator_def)
    next
      case (Inr out)
      with Resumable n \<open>r = Inr mi\<close> p assms show ?thesis
        by (cases out) (simp add: next_brain_generator_def)
    qed
  qed
qed

lemma generate_brain_Inl_in_generator:
  assumes "next_brain_generator env g = (Inl e, g')"
  shows "generate_brain env g = (Inl e, g')"
  using assms by (simp add: generate_brain_def)

text \<open>
  Claim C9, as amended. Every call of \<open>generate_brain\<close>, failing or not, leaves the
  static fields of the object as they are: it changes at most the state of the model,
  the state of the iterator of model inputs and the status of the brain generator. A
  call on a finished generator raises StopIteration and changes nothing. A call in
  which the iterator or the model raises passes the exception on and leaves the brain
  generator finished, so that the next call raises StopIteration.
\<close>

theorem static_configuration_unchanged:
  "config.truncate (snd (generate_brain env g)) = config.truncate g
 \<and> model_output_shape (snd (generate_brain env g)) = model_output_shape g
 \<and> (\<exists>m s b. snd (generate_brain env g)
        = g\<lparr>labels_to_image_model := m, model_inputs_generator := s, brain_generator := b\<rparr>)
 \<and> (brain_generator g = Finished \<longrightarrow> generate_brain env g = (Inl StopIteration, g))
 \<and> (isl (fst (next_brain_generator env g)) \<longrightarrow>
      fst (generate_brain env g) = fst (next_brain_generator env g) \<and>
      brain_generator (snd (generate_brain env g)) = Finished \<and>
      generate_brain env (snd (generate_brain env g))
        = (Inl StopIteration, snd (generate_brain env g)))"
proof -
  have 1: "config.truncate (snd (generate_brain env g)) = config.truncate g"
    by (rule generate_brain_config)
  from generate_brain_frame [of env g] obtain m s b where
    f: "snd (generate_brain env g)
       = g\<lparr>labels_to_image_model := m, model_inputs_generator := s, brain_generator := b\<rparr>"
    by blast
  then have 2: "model_output_shape (snd (generate_brain env g)) = model_output_shape g"
    by simp
  from f have 3: "\<exists>m s b. snd (generate_brain env g)
        = g\<lparr>labels_to_image_model := m, model_inputs_generator := s, brain_generator := b\<rparr>"
    by blast
  have 4: "brain_generator g = Finished \<longrightarrow> generate_brain env g = (Inl StopIteration, g)"
    by (simp add: generate_brain_finished)
  have 5: "fst (generate_brain env g) = fst (next_brain_generator env g) \<and>
      brain_generator (snd (generate_brain env g)) = Finished \<and>
      generate_brain env (snd (generate_brain env g))
        = (Inl StopIteration, snd (generate_brain env g))"
    if "isl (fst (next_brain_generator env g))"
  proof -
    from that obtain e g' where n: "next_brain_generator env g = (Inl e, g')"
      by (cases "next_brain_generator env g"; cases "fst (next_brain_generator env g)") auto
    from generate_brain_Inl_in_generator [OF n] have gb: "generate_brain env g = (Inl e, g')" .
    from next_brain_generator_Inl [OF n] have fi: "brain_generator g' = Finished" .
    from generate_brain_finished [OF fi] n gb fi show ?thesis by simp
  qed
  from 1 2 3 4 5 show ?thesis by blast
qed

lemma flaky_first:
  "next_brain_generator flaky_env example_generator
     = (Inl (ExternalError ''out of memory''),
        example_generator\<lparr>model_inputs_generator := 1, brain_generator := Finished\<rparr>)"
  by code_simp


text \<open>The model of \<open>flaky_env\<close> raises in the first call.\<close>

theorem static_configuration_unchanged_witness:
  "brain_generator (example_generator\<lparr>brain_generator := Finished\<rparr>) = Finished
 \<and> generate_brain flaky_env (example_generator\<lparr>brain_generator := Finished\<rparr>)
     = (Inl StopIteration, example_generator\<lparr>brain_generator := Finished\<rparr>)
 \<and> isl (fst (next_brain_generator flaky_env example_generator))
 \<and> fst (generate_brain flaky_env example_generator) = Inl (ExternalError ''out of memory'')
 \<and> brain_generator (snd (generate_brain flaky_env example_generator)) = Finished
 \<and> generate_brain flaky_env (snd (generate_brain flaky_env example_generator))
     = (Inl StopIteration, snd (generate_brain flaky_env example_generator))
 \<and> config.truncate (snd (generate_brain flaky_env example_generator))
     = config.truncate example_generator"
proof -
  have i: "isl (fst (next_brain_generator flaky_env example_generator))"
    by (simp add: flaky_first)
  from static_configuration_unchanged [of flaky_env example_generator] i flaky_first
    static_configuration_unchanged [of flaky_env "example_generator\<lparr>brain_generator := Finished\<rparr>"]
  show ?thesis by simp
qed


text \<open>
  Claim C9 as stated fails: after a call in which the model raised, a second call does
  not generate anything but raises StopIteration, although the same call on the object
  with the status of its generator put back returns a batch.
\<close>

theorem failed_call_not_retryable:
  "fst (generate_brain flaky_env example_generator) = Inl (ExternalError ''out of memory'')
 \<and> fst (generate_brain flaky_env (snd (generate_brain flaky_env example_generator)))
     = Inl StopIteration
 \<and> fst (generate_brain flaky_env
       ((snd (generate_brain flaky_env example_generator))\<lparr>brain_generator := Resumable\<rparr>))
     = Inr (\<lparr>shape = [1, 1, 3, 2, 1], data = [2, 5, 1, 4, 1, 3]\<rparr>,
            \<lparr>shape = [1, 1, 3, 2, 1], data = [20, 50, 10, 40, 1, 30]\<rparr>)"
  by code_simp

section \<open>The shape of a batch in native space\<close>

lemma np_flip_shape: "np_flip v axis = Inr w \<Longrightarrow> shape w = shape v"
  by (auto simp: np_flip_def split: if_splits)

lemma np_flips_shape: "np_flips v axes = Inr w \<Longrightarrow> shape w = shape v"
proof (induction axes arbitrary: v)
  case Nil
  then show ?case by simp
next
  case (Cons a axes)
  from Cons.prems obtain u where "np_flip v a = Inr u" "np_flips u axes = Inr w"
    by (auto simp: and_then_eq_Inr)
  with Cons.IH [of u] np_flip_shape [of v a u] show ?case by simp
qed

lemma np_transpose_shape:
  "np_transpose v axes = Inr w \<Longrightarrow> shape w = map (\<lambda>a. shape v ! a) axes"
  by (auto simp: np_transpose_def Let_def split: if_splits)

lemma align_spec_shape:
  assumes "align_volume_to_ref_spec v (eye 4) aff_ref n = Inr w"
  shows "shape w = native_shape aff_ref n (shape v)"
proof -
  from assms obtain u fl where
    "np_transpose v (axes_order (orientation (eye 4) n) (orientation aff_ref n) (length (shape v))) = Inr u"
    "np_flips u fl = Inr w"
    by (auto simp: align_volume_to_ref_spec_def Let_def and_then_eq_Inr)
  then show ?thesis
    using np_transpose_shape [of v _ u] np_flips_shape [of u fl w]
    by (simp add: native_shape_def)
qed

lemma getitem_shape: "getitem a i = Inr v \<Longrightarrow> shape v = tl (shape a)"
  by (auto simp: getitem_def split: list.splits if_splits)

lemma np_stack_shape:
  "np_stack arrays = Inr a \<Longrightarrow> arrays \<noteq> [] \<and> shape a = length arrays # shape (arrays ! 0)"
  by (auto simp: np_stack_def split: list.splits if_splits)

lemma map_of_zip_same: "map_of (zip xs xs) k = (if k \<in> set xs then Some k else None)"
  by (induction xs) auto

lemma axes_order_same:
  "map fst ref = map fst flo \<Longrightarrow> axes_order flo ref rank = [0..<rank]"
  by (simp add: axes_order_def map_of_zip_same map_idI)

lemma native_shape_same:
  "map fst (orientation aff_ref n) = map fst (orientation (eye 4) n) \<Longrightarrow>
   native_shape aff_ref n sh = sh"
  by (simp add: native_shape_def axes_order_same map_nth)

lemma np_transpose_mset:
  assumes "np_transpose v axes = Inr w"
  shows "mset (shape w) = mset (shape v)"
proof -
  from assms have s: "sort axes = [0..<length (shape v)]"
    and w: "shape w = map (\<lambda>a. shape v ! a) axes"
    by (auto simp: np_transpose_def Let_def split: if_splits)
  from s have "mset axes = mset [0..<length (shape v)]"
    by (metis mset_sort)
  then have "mset (map (\<lambda>a. shape v ! a) axes) = mset (map (\<lambda>a. shape v ! a) [0..<length (shape v)])"
    by (metis mset_map)
  then show ?thesis
    using w by (simp add: map_nth)
qed

lemma align_spec_mset:
  assumes "align_volume_to_ref_spec v a r n = Inr w"
  shows "mset (shape w) = mset (shape v)"
proof -
  from assms obtain u ax fl where "np_transpose v ax = Inr u" "np_flips u fl = Inr w"
    by (auto simp: align_volume_to_ref_spec_def Let_def and_then_eq_Inr)
  then show ?thesis
    using np_transpose_mset [of v ax u] np_flips_shape [of u fl w] by simp
qed

lemma dominant_less: "xs \<noteq> [] \<Longrightarrow> fst (dominant xs) < length xs"
proof (induction xs)
  case Nil
  then show ?case by simp
next
  case (Cons x xs)
  show ?case
  proof (cases "list_all (\<lambda>y. \<bar>y\<bar> \<le> \<bar>x\<bar>) xs")
    case True
    then show ?thesis by simp
  next
    case False
    then have "xs \<noteq> []" by auto
    with Cons.IH False show ?thesis
      by (auto split: prod.splits)
  qed
qed

lemma orientation_axes_less:
  assumes "k \<in> set (map fst (orientation a n))"
  shows "k < n"
proof -
  from assms obtain row where r: "row \<in> set (take n a)"
    and k: "k = fst (dominant (take n row))"
    by (auto simp: orientation_def split: prod.splits)
  from r have n: "0 < n" by (cases n) auto
  show ?thesis
  proof (cases "take n row = []")
    case True
    with k n show ?thesis by simp
  next
    case False
    from dominant_less [OF False] k have "k < length (take n row)" by simp
    then show ?thesis by simp
  qed
qed

lemma native_shape_channels:
  "native_shape aff_ref (length os) (os @ [c]) ! length os = c"
proof -
  let ?n = "length os"
  have "?n \<notin> set (map fst (orientation aff_ref ?n))"
    using orientation_axes_less [of ?n aff_ref ?n] by auto
  then have "map_of (zip (map fst (orientation aff_ref ?n)) (map fst (orientation (eye 4) ?n))) ?n = None"
    by (auto simp: map_of_eq_None_iff dest: set_zip_leftD)
  then have "axes_order (orientation (eye 4) ?n) (orientation aff_ref ?n) (Suc ?n) ! ?n = ?n"
    unfolding axes_order_def
    using nth_map [of ?n "[0..<Suc ?n]"] by (simp del: upt_Suc)
  moreover have "length (axes_order (orientation (eye 4) ?n) (orientation aff_ref ?n) (Suc ?n)) = Suc ?n"
    by (simp add: axes_order_def)
  ultimately show ?thesis
    unfolding native_shape_def by (simp del: upt_Suc)
qed

lemma native_shape_length: "length (native_shape aff_ref n sh) = length sh"
  by (simp add: native_shape_def axes_order_def)

lemma native_shape_last:
  "last (native_shape aff_ref (length os) (os @ [c])) = c"
proof -
  have "native_shape aff_ref (length os) (os @ [c]) \<noteq> []"
    using native_shape_length [of aff_ref "length os" "os @ [c]"] by auto
  then show ?thesis
    using native_shape_channels [of aff_ref os c]
      native_shape_length [of aff_ref "length os" "os @ [c]"]
    by (simp add: last_conv_nth)
qed

text \<open>
  Claim C1, as amended. With the re-orientation modelled from the spec and a model that
  emits batches of \<open>batchsize\<close> samples of shape \<open>os\<close> with \<open>c\<close> and \<open>c'\<close>
  channels, a batch returned by \<open>generate_brain\<close> has \<open>batchsize\<close> as first
  dimension, and each of its samples has the shape of the model's output in the
  orientation of the first label map: the same extents as the model's output, in the
  order of the voxel axes of that affine, with the channels last when \<open>os\<close> has one
  extent per dimension. This is \<open>os\<close> followed by the channels when that affine has
  its voxel axes in the order of the canonical frame.
\<close>

theorem native_batch_shape:
  assumes "generate_brain env g = (Inr (im, tg), g')"
    and "align_volume_to_ref env = align_volume_to_ref_spec"
    and "\<forall>m mi i t m'. predict env m mi = (Inr (i, t), m') \<longrightarrow>
           shape i = nat (batchsize g) # os @ [c] \<and> shape t = nat (batchsize g) # os @ [c']"
  shows "0 < batchsize g
       \<and> shape im = nat (batchsize g) # native_shape (aff g) (n_dims g) (os @ [c])
       \<and> shape tg = nat (batchsize g) # native_shape (aff g) (n_dims g) (os @ [c'])
       \<and> (map fst (orientation (aff g) (n_dims g)) = map fst (orientation (eye 4) (n_dims g)) \<longrightarrow>
            shape im = nat (batchsize g) # os @ [c] \<and> shape tg = nat (batchsize g) # os @ [c'])
       \<and> mset (tl (shape im)) = mset (os @ [c]) \<and> mset (tl (shape tg)) = mset (os @ [c'])
       \<and> (n_dims g = length os \<longrightarrow> last (shape im) = c \<and> last (shape tg) = c')"
proof -
  from assms(1) [unfolded generate_brain_Inr] obtain mi s' m' image0 target0 where
    p: "predict env (labels_to_image_model g) mi = (Inr (image0, target0), m')"
    and pb: "put_back_in_native_space env g image0 target0 = Inr (im, tg)"
    by blast
  from p assms(3) have sh: "shape image0 = nat (batchsize g) # os @ [c]"
    "shape target0 = nat (batchsize g) # os @ [c']"
    by blast+
  from put_back_Inr [OF pb] obtain li lt where
    s: "np_stack li = Inr im" "np_stack lt = Inr tg"
       "length li = nat (batchsize g)" "length lt = nat (batchsize g)"
    and al: "\<forall>i<nat (batchsize g). \<exists>image_i target_i.
        getitem image0 i = Inr image_i \<and>
        align_volume_to_ref env image_i (eye 4) (aff g) (n_dims g) = Inr (li ! i) \<and>
        getitem target0 i = Inr target_i \<and>
        align_volume_to_ref env target_i (eye 4) (aff g) (n_dims g) = Inr (lt ! i)"
    by blast
  from np_stack_shape [OF s(1)] np_stack_shape [OF s(2)] have
    ne: "li \<noteq> []" and si: "shape im = length li # shape (li ! 0)"
    and st: "shape tg = length lt # shape (lt ! 0)"
    by simp_all
  from ne s(3) have b: "0 < nat (batchsize g)" by (cases li) auto
  with al obtain image_i target_i where
    a: "getitem image0 0 = Inr image_i"
       "align_volume_to_ref_spec image_i (eye 4) (aff g) (n_dims g) = Inr (li ! 0)"
       "getitem target0 0 = Inr target_i"
       "align_volume_to_ref_spec target_i (eye 4) (aff g) (n_dims g) = Inr (lt ! 0)"
    unfolding assms(2) by blast
  from getitem_shape [OF a(1)] getitem_shape [OF a(3)] sh
  have "shape image_i = os @ [c]" "shape target_i = os @ [c']" by simp_all
  with align_spec_shape [OF a(2)] align_spec_shape [OF a(4)]
  have "shape (li ! 0) = native_shape (aff g) (n_dims g) (os @ [c])"
    "shape (lt ! 0) = native_shape (aff g) (n_dims g) (os @ [c'])"
    by simp_all
  with si st s(3,4) have
    1: "shape im = nat (batchsize g) # native_shape (aff g) (n_dims g) (os @ [c])"
    and 2: "shape tg = nat (batchsize g) # native_shape (aff g) (n_dims g) (os @ [c'])"
    by simp_all
  from b have 0: "0 < batchsize g" by simp
  from align_spec_mset [OF a(2)] align_spec_mset [OF a(4)]
    \<open>shape image_i = os @ [c]\<close> \<open>shape target_i = os @ [c']\<close> si st
  have 3: "mset (tl (shape im)) = mset (os @ [c])" "mset (tl (shape tg)) = mset (os @ [c'])"
    by simp_all
  have 4: "last (shape im) = c \<and> last (shape tg) = c'" if n: "n_dims g = length os"
  proof -
    have "native_shape (aff g) (length os) (os @ [c]) \<noteq> []"
      "native_shape (aff g) (length os) (os @ [c']) \<noteq> []"
      using native_shape_length [of "aff g" "length os" "os @ [c]"]
        native_shape_length [of "aff g" "length os" "os @ [c']"]
      by auto
    with 1 2 n show ?thesis
      by (simp add: native_shape_last)
  qed
  from 0 1 2 3 4 show ?thesis
    by (simp add: native_shape_same)
qed

lemma generate_example_canonical:
  "generate_brain example_env (example_generator\<lparr>aff := eye 4\<rparr>)
     = (Inr (\<lparr>shape = [1, 1, 2, 3, 1], data = [0, 1, 2, 3, 4, 5]\<rparr>,
             \<lparr>shape = [1, 1, 2, 3, 1], data = [0, 10, 20, 30, 40, 50]\<rparr>),
        example_generator\<lparr>aff := eye 4, model_inputs_generator := 1\<rparr>)"
  by code_simp

text \<open>
  The example (LIA orientation, model output \<open>1 \<times> 2 \<times> 3\<close>), and the same generator with
  the identity as affine of its label map.
\<close>

theorem native_batch_shape_witness:
  "generate_brain example_env example_generator
     = (Inr (\<lparr>shape = [1, 1, 3, 2, 1], data = [2, 5, 1, 4, 0, 3]\<rparr>,
             \<lparr>shape = [1, 1, 3, 2, 1], data = [20, 50, 10, 40, 0, 30]\<rparr>),
        example_generator\<lparr>model_inputs_generator := 1\<rparr>)
 \<and> align_volume_to_ref example_env = align_volume_to_ref_spec
 \<and> (\<forall>m mi. shape (fst (projr (fst (predict example_env m mi))))
        = nat (batchsize example_generator) # [1, 2, 3] @ [1])
 \<and> native_shape (aff example_generator) (n_dims example_generator) ([1, 2, 3] @ [1]) = [1, 3, 2, 1]
 \<and> map fst (orientation (eye 4) 3) = map fst (orientation (eye 4) 3)
 \<and> shape \<lparr>shape = [1, 1, 2, 3, 1], data = [0, 1, 2, 3, 4, 5 :: real]\<rparr>
      = nat (batchsize (example_generator\<lparr>aff := eye 4\<rparr>)) # [1, 2, 3] @ [1]"
proof -
  have a: "align_volume_to_ref example_env = align_volume_to_ref_spec"
    by (simp add: example_env_def)
  have b: "batchsize example_generator = 1" "aff example_generator = lia"
    "n_dims example_generator = 3"
    by (simp_all add: example_fields)
  have p: "\<forall>m mi i t m'. predict example_env m mi = (Inr (i, t), m') \<longrightarrow>
        shape i = nat (batchsize example_generator) # [1, 2, 3] @ [1] \<and>
        shape t = nat (batchsize example_generator) # [1, 2, 3] @ [1]"
    by (auto simp: example_env_def b)
  have p': "\<forall>m mi i t m'. predict example_env m mi = (Inr (i, t), m') \<longrightarrow>
        shape i = nat (batchsize (example_generator\<lparr>aff := eye 4\<rparr>)) # [1, 2, 3] @ [1] \<and>
        shape t = nat (batchsize (example_generator\<lparr>aff := eye 4\<rparr>)) # [1, 2, 3] @ [1]"
    using p by simp
  from native_batch_shape [OF generate_example a p]
  have 1: "native_shape (aff example_generator) (n_dims example_generator) ([1, 2, 3] @ [1])
      = [1, 3, 2, 1]"
    by (simp add: b)
  from native_batch_shape [OF generate_example_canonical a p']
  have 2: "shape \<lparr>shape = [1, 1, 2, 3, 1], data = [0, 1, 2, 3, 4, 5 :: real]\<rparr>
      = nat (batchsize (example_generator\<lparr>aff := eye 4\<rparr>)) # [1, 2, 3] @ [1]"
    by (simp add: b)
  have q: "\<forall>m mi. shape (fst (projr (fst (predict example_env m mi))))
        = nat (batchsize example_generator) # [1, 2, 3] @ [1]"
    by (simp add: example_env_def b)
  from generate_example a q 1 2 show ?thesis by blast
qed

text \<open>
  Claim C1 as stated fails: for a label map in LIA orientation and a model that emits
  volumes of shape \<open>1 \<times> 2 \<times> 3\<close>, the batch has shape \<open>(1, 1, 3, 2, 1)\<close> and not
  \<open>(1, 1, 2, 3, 1)\<close>.
\<close>

theorem native_shape_is_permuted:
  "init example_env example_args = Inr example_generator
 \<and> batchsize example_generator = 1
 \<and> model_output_shape example_generator = [Some 1, Some 2, Some 3, Some 1]
 \<and> fst (generate_brain example_env example_generator)
     = Inr (\<lparr>shape = [1, 1, 3, 2, 1], data = [2, 5, 1, 4, 0, 3]\<rparr>,
            \<lparr>shape = [1, 1, 3, 2, 1], data = [20, 50, 10, 40, 0, 30]\<rparr>)
 \<and> [1, 1, 3, 2, 1] \<noteq> [1, 1, 2, 3, 1 :: nat]"
  by code_simp

section \<open>Flipping a label map twice\<close>

lemma unravel_valid:
  "k < prod_list sh \<Longrightarrow> list_all2 (<) (unravel sh k) sh"
proof (induction sh arbitrary: k)
  case Nil
  then show ?case by simp
next
  case (Cons n ns)
  from Cons.prems have lt: "k < n * prod_list ns" by simp
  then have pos: "0 < prod_list ns" by (cases "prod_list ns = 0") auto
  from lt have "k div prod_list ns < n"
    by (simp add: less_mult_imp_div_less)
  moreover from pos have "k mod prod_list ns < prod_list ns" by simp
  ultimately show ?case using Cons.IH by simp
qed

lemma ravel_unravel:
  "k < prod_list sh \<Longrightarrow> ravel sh (unravel sh k) = k"
proof (induction sh arbitrary: k)
  case Nil
  then show ?case by simp
next
  case (Cons n ns)
  from Cons.prems have lt: "k < n * prod_list ns" by simp
  then have pos: "0 < prod_list ns" by (cases "prod_list ns = 0") auto
  then have "k mod prod_list ns < prod_list ns" by simp
  from Cons.IH [OF this] show ?case by simp
qed

lemma ravel_less:
  "list_all2 (<) idx sh \<Longrightarrow> ravel sh idx < prod_list sh"
proof (induction sh arbitrary: idx)
  case Nil
  then show ?case by simp
next
  case (Cons n ns)
  from Cons.prems obtain i "is" where idx: "idx = i # is" and i: "i < n"
    and r: "list_all2 (<) is ns"
    by (cases idx) auto
  from Cons.IH [OF r] have "ravel ns is < prod_list ns" .
  then have "i * prod_list ns + ravel ns is < (i + 1) * prod_list ns" by simp
  also from i have "\<dots> \<le> n * prod_list ns"
    by (intro mult_le_mono1) simp
  finally show ?case using idx by simp
qed

lemma unravel_ravel:
  "list_all2 (<) idx sh \<Longrightarrow> unravel sh (ravel sh idx) = idx"
proof (induction sh arbitrary: idx)
  case Nil
  then show ?case by simp
next
  case (Cons n ns)
  from Cons.prems obtain i "is" where idx: "idx = i # is" and i: "i < n"
    and r: "list_all2 (<) is ns"
    by (cases idx) auto
  from ravel_less [OF r] have l: "ravel ns is < prod_list ns" .
  then have "(i * prod_list ns + ravel ns is) div prod_list ns = i"
    "(i * prod_list ns + ravel ns is) mod prod_list ns = ravel ns is"
    by simp_all
  with Cons.IH [OF r] idx show ?case by simp
qed

lemma mirror_valid:
  assumes "list_all2 (<) idx sh" and "axis < length sh"
  shows "list_all2 (<) (mirror sh axis idx) sh"
proof -
  from assms have len: "length idx = length sh" and a: "idx ! axis < sh ! axis"
    by (auto simp: list_all2_conv_all_nth)
  then have "sh ! axis - 1 - idx ! axis < sh ! axis" by simp
  with assms len show ?thesis
    by (auto simp: mirror_def list_all2_conv_all_nth nth_list_update)
qed

lemma mirror_mirror:
  assumes "list_all2 (<) idx sh" and "axis < length sh"
  shows "mirror sh axis (mirror sh axis idx) = idx"
proof -
  from assms have len: "length idx = length sh" and a: "idx ! axis < sh ! axis"
    by (auto simp: list_all2_conv_all_nth)
  then have "sh ! axis - 1 - (sh ! axis - 1 - idx ! axis) = idx ! axis" by simp
  with len assms(2) show ?thesis
    by (simp add: mirror_def list_update_same_conv)
qed

lemma mirrored_less:
  "k < prod_list sh \<Longrightarrow> axis < length sh \<Longrightarrow> mirrored sh axis k < prod_list sh"
  unfolding mirrored_def by (intro ravel_less mirror_valid unravel_valid)

lemma mirrored_mirrored:
  "k < prod_list sh \<Longrightarrow> axis < length sh \<Longrightarrow> mirrored sh axis (mirrored sh axis k) = k"
  unfolding mirrored_def
  by (simp add: unravel_ravel mirror_valid unravel_valid mirror_mirror ravel_unravel)

lemma np_flip_Inr:
  "axis < length (shape v) \<Longrightarrow>
   np_flip v axis = Inr (v\<lparr>data := map (\<lambda>k. data v ! mirrored (shape v) axis k) [0..<length (data v)]\<rparr>)"
  by (simp add: np_flip_def)

lemma np_flip_twice:
  fixes v :: "'a ndarray"
  assumes "axis < length (shape v)" and "well_shaped v"
  shows "and_then (np_flip v axis) (\<lambda>w. np_flip w axis) = Inr v"
proof -
  let ?sh = "shape v"
  let ?w = "v\<lparr>data := map (\<lambda>k. data v ! mirrored ?sh axis k) [0..<length (data v)]\<rparr>"
  from assms(2) have len: "length (data v) = prod_list ?sh"
    by (simp add: well_shaped_def)
  have "map (\<lambda>k. data ?w ! mirrored ?sh axis k) [0..<length (data ?w)] = data v"
  proof (rule nth_equalityI)
    show "length (map (\<lambda>k. data ?w ! mirrored ?sh axis k) [0..<length (data ?w)]) = length (data v)"
      by simp
  next
    fix k assume "k < length (map (\<lambda>k. data ?w ! mirrored ?sh axis k) [0..<length (data ?w)])"
    then have k: "k < prod_list ?sh" using len by simp
    from mirrored_less [OF k assms(1)] have m: "mirrored ?sh axis k < length (data v)"
      using len by simp
    from k len m show "map (\<lambda>k. data ?w ! mirrored ?sh axis k) [0..<length (data ?w)] ! k = data v ! k"
      by (simp add: mirrored_mirrored [OF k assms(1)])
  qed
  then have "?w\<lparr>data := map (\<lambda>k. data ?w ! mirrored ?sh axis k) [0..<length (data ?w)]\<rparr> = v"
    by simp
  moreover have "np_flip ?w axis
      = Inr (?w\<lparr>data := map (\<lambda>k. data ?w ! mirrored (shape ?w) axis k) [0..<length (data ?w)]\<rparr>)"
    using assms(1) by (intro np_flip_Inr) simp
  ultimately show ?thesis
    using np_flip_Inr [OF assms(1)] by simp
qed

lemma swap_pairs_involution:
  fixes ks :: "'a list"
  assumes d: "distinct ks" and len: "length ks = 2 * m"
  defines "vs \<equiv> drop m ks @ take m ks"
  defines "f \<equiv> \<lambda>l. case map_of (zip ks vs) l of Some l' \<Rightarrow> l' | None \<Rightarrow> l"
  shows "f (f l) = l"
proof (cases "l \<in> set ks")
  case False
  then have "map_of (zip ks vs) l = None"
    by (auto simp: map_of_eq_None_iff dest: set_zip_leftD)
  then show ?thesis by (simp add: f_def)
next
  case True
  have lv: "length vs = length ks" by (simp add: vs_def len)
  have vs: "vs = rotate m ks"
    using len by (cases "m = 0") (simp_all add: rotate_drop_take vs_def)
  have step: "f (ks ! i) = ks ! ((m + i) mod (2 * m))" if "i < 2 * m" for i
  proof -
    from that have "map_of (zip ks vs) (ks ! i) = Some (vs ! i)"
      using map_of_zip_nth [of ks vs i] d lv len by simp
    moreover from that have "vs ! i = ks ! ((m + i) mod (2 * m))"
      unfolding vs using nth_rotate [of i ks m] len by simp
    ultimately show ?thesis by (simp add: f_def)
  qed
  from True obtain i where i: "i < 2 * m" "l = ks ! i"
    using len by (auto simp: in_set_conv_nth)
  then have m: "0 < m" by simp
  let ?j = "(m + i) mod (2 * m)"
  from m have j: "?j < 2 * m" by simp
  have "(m + ?j) mod (2 * m) = (m + (m + i)) mod (2 * m)"
    by (simp add: mod_add_right_eq)
  also have "m + (m + i) = i + 2 * m" by simp
  also have "(i + 2 * m) mod (2 * m) = i" using i(1) by simp
  finally have "f (f l) = ks ! i"
    using step [OF i(1)] step [OF j] i(2) by simp
  with i show ?thesis by simp
qed

lemma swap_labels_involution:
  assumes "distinct label_list" and "even (length label_list - n)"
  shows "swap_labels label_list n (swap_labels label_list n l) = l"
proof -
  let ?sided = "drop n label_list"
  let ?m = "length ?sided div 2"
  from assms(2) have len: "length ?sided = 2 * ?m" by simp
  from assms(1) have d: "distinct ?sided" by simp
  have t: "take ?m ?sided @ drop ?m ?sided = ?sided" by (rule append_take_drop_id)
  from swap_pairs_involution [OF d len, of l]
  show ?thesis
    unfolding swap_labels_def Let_def t .
qed

text \<open>
  Claim C5. For a list of distinct labels whose sided part, after the \<open>n\<close> neutral
  labels, has an even length, flipping a label map along an axis and flipping the
  result along the same axis gives the label map back: both the mirroring and the
  relabelling undo themselves.
\<close>

theorem flip_round_trip:
  assumes "distinct label_list" and "even (length label_list - n)"
    and "axis < length (shape labels)" and "well_shaped labels"
  shows "and_then (flip_label_map label_list n axis labels) (flip_label_map label_list n axis)
           = Inr labels"
proof -
  let ?s = "swap_labels label_list n"
  let ?sh = "shape labels"
  let ?p = "mirrored ?sh axis"
  let ?v = "labels\<lparr>data := map (\<lambda>k. data labels ! ?p k) [0..<length (data labels)]\<rparr>"
  let ?w = "?v\<lparr>data := map ?s (data ?v)\<rparr>"
  from assms(4) have len: "length (data labels) = prod_list ?sh"
    by (simp add: well_shaped_def)
  have 1: "flip_label_map label_list n axis labels = Inr ?w"
    using np_flip_Inr [OF assms(3)] by (simp add: flip_label_map_def)
  have ax: "axis < length (shape ?w)" using assms(3) by simp
  let ?v' = "?w\<lparr>data := map (\<lambda>k. data ?w ! ?p k) [0..<length (data ?w)]\<rparr>"
  have 2: "flip_label_map label_list n axis ?w = Inr (?v'\<lparr>data := map ?s (data ?v')\<rparr>)"
    using np_flip_Inr [OF ax] by (simp add: flip_label_map_def)
  have "map ?s (data ?v') = data labels"
  proof (rule nth_equalityI)
    show "length (map ?s (data ?v')) = length (data labels)" by simp
  next
    fix k assume "k < length (map ?s (data ?v'))"
    then have k: "k < prod_list ?sh" using len by simp
    from mirrored_less [OF k assms(3)] have m: "?p k < length (data labels)"
      using len by simp
    from k len m have "map ?s (data ?v') ! k = ?s (?s (data labels ! ?p (?p k)))"
      by simp
    also have "\<dots> = data labels ! k"
      by (simp add: swap_labels_involution [OF assms(1,2)] mirrored_mirrored [OF k assms(3)])
    finally show "map ?s (data ?v') ! k = data labels ! k" .
  qed
  then have "?v'\<lparr>data := map ?s (data ?v')\<rparr> = labels" by simp
  with 1 2 show ?thesis by simp
qed


text \<open>Three neutral labels and two pairs, a label map of shape \<open>2 \<times> 3\<close>, axis 1.\<close>

theorem flip_round_trip_witness:
  "distinct [0, 1, 2, 3, 4, 5, 6 :: int] \<and> even (length [0, 1, 2, 3, 4, 5, 6 :: int] - 3)
 \<and> 1 < length (shape \<lparr>shape = [2, 3], data = [0, 3, 4, 5, 6, 1 :: int]\<rparr>)
 \<and> well_shaped \<lparr>shape = [2, 3], data = [0, 3, 4, 5, 6, 1 :: int]\<rparr>
 \<and> flip_label_map [0, 1, 2, 3, 4, 5, 6] 3 1 \<lparr>shape = [2, 3], data = [0, 3, 4, 5, 6, 1]\<rparr>
     = Inr \<lparr>shape = [2, 3], data = [6, 5, 0, 1, 4, 3]\<rparr>
 \<and> flip_label_map [0, 1, 2, 3, 4, 5, 6] 3 1 \<lparr>shape = [2, 3], data = [6, 5, 0, 1, 4, 3]\<rparr>
     = Inr \<lparr>shape = [2, 3], data = [0, 3, 4, 5, 6, 1]\<rparr>"
proof -
  have h: "distinct [0, 1, 2, 3, 4, 5, 6 :: int]" "even (length [0, 1, 2, 3, 4, 5, 6 :: int] - 3)"
    "1 < length (shape \<lparr>shape = [2, 3], data = [0, 3, 4, 5, 6, 1 :: int]\<rparr>)"
    "well_shaped \<lparr>shape = [2, 3], data = [0, 3, 4, 5, 6, 1 :: int]\<rparr>"
    by (simp_all add: well_shaped_def)
  have f: "flip_label_map [0, 1, 2, 3, 4, 5, 6] 3 1 \<lparr>shape = [2, 3], data = [0, 3, 4, 5, 6, 1]\<rparr>
     = Inr \<lparr>shape = [2, 3], data = [6, 5, 0, 1, 4, 3]\<rparr>"
    by code_simp
  from flip_round_trip [OF h] f
  have "flip_label_map [0, 1, 2, 3, 4, 5, 6] 3 1 \<lparr>shape = [2, 3], data = [6, 5, 0, 1, 4, 3]\<rparr>
     = Inr \<lparr>shape = [2, 3], data = [0, 3, 4, 5, 6, 1]\<rparr>"
    by simp
  with h f show ?thesis by blast
qed

end
